theory Spec2Isabelle
  imports Complex_Main "HOL-Library.Sublist" "HOL-Library.Log_Nat"
begin

text \<open>
  A shallow embedding of the analysis core of the heart-rate-variability trainer: the
  artifact filter, the time-domain metrics, the resampler, the Welch spectral estimate,
  band integration and the coherence score (\<open>src/analysis\<close>), the worker that runs
  them as one pipeline, and the calibration scan and the signal-quality score of the
  application module. The definitions come first, one section for each source file, in
  the order of the source; the properties follow.
\<close>

section \<open>Numbers\<close>

text \<open>
  The program computes with JavaScript numbers. Finite numbers are modelled as
  \<^typ>\<open>real\<close> with exact arithmetic; the non-finite values that \<open>Number.isFinite\<close>
  tests for are separate constructors, and an array holding raw input is a
  \<open>number list\<close>. Code that runs after a finiteness or range check works on
  \<^typ>\<open>real\<close> directly. The rounding of IEEE doubles is modelled where a rounded
  integer is what the program returns, in the signal-quality score, and nowhere else.
\<close>

datatype number = Fin real | PosInf | NegInf | NaN

fun isFinite :: "number \<Rightarrow> bool" where
  "isFinite (Fin x) = True"
| "isFinite PosInf = False"
| "isFinite NegInf = False"
| "isFinite NaN = False"

section \<open>analysis/psd.ts: band integration\<close>

record PsdData =
  psd_f :: "real list"
  psd_p :: "real list"

text \<open>
  One round of the loop of \<open>integrateBand\<close> at index \<open>i\<close>: the pair of bins
  \<open>i - 1\<close>, \<open>i\<close> is skipped when it lies wholly outside the band, and adds its trapezoid
  when \<open>dx > 0\<close>.
\<close>

definition integrateStep :: "PsdData \<Rightarrow> real \<Rightarrow> real \<Rightarrow> real \<Rightarrow> nat \<Rightarrow> real" where
  "integrateStep psd lowHz highHz area i =
     (let f0 = psd_f psd ! (i - 1);
          f1 = psd_f psd ! i
      in if f1 < lowHz \<or> f0 > highHz then area
         else
           let p0 = psd_p psd ! (i - 1);
               p1 = psd_p psd ! i;
               dx = f1 - f0
           in if dx > 0 then area + ((p0 + p1) / 2) * dx else area)"

definition integrateBand :: "PsdData \<Rightarrow> real \<Rightarrow> real \<Rightarrow> real" where
  "integrateBand psd lowHz highHz =
     (if length (psd_f psd) = 0 \<or> length (psd_f psd) \<noteq> length (psd_p psd) then 0
      else foldl (integrateStep psd lowHz highHz) 0 [1..<length (psd_f psd)])"

section \<open>analysis/coherence.ts\<close>

record CoherenceMetrics =
  coherenceScore :: real
  peakFrequencyHz :: real
  peakPower :: real
  targetBandPower :: real

definition LF_LOW_HZ :: real where "LF_LOW_HZ = 0.04"
definition HF_HIGH_HZ :: real where "HF_HIGH_HZ = 0.4"
definition TARGET_HALF_BAND_HZ :: real where "TARGET_HALF_BAND_HZ = 0.015"

text \<open>
  One round of the peak scan; the state is \<open>(peakFrequencyHz, peakPower)\<close>. Reading
  \<open>psd.p[i]\<close> past the end of \<open>p\<close> gives \<open>undefined\<close>, for which \<open>power > peakPower\<close>
  is false.
\<close>

definition peakStep :: "PsdData \<Rightarrow> real \<times> real \<Rightarrow> nat \<Rightarrow> real \<times> real" where
  "peakStep psd peak i =
     (let frequency = psd_f psd ! i
      in if frequency < LF_LOW_HZ \<or> frequency > HF_HIGH_HZ then peak
         else if i < length (psd_p psd) \<and> psd_p psd ! i > snd peak
              then (frequency, psd_p psd ! i)
              else peak)"

definition computeCoherence :: "PsdData \<Rightarrow> real \<Rightarrow> CoherenceMetrics" where
  "computeCoherence psd targetHz =
     (let totalPower = integrateBand psd LF_LOW_HZ HF_HIGH_HZ;
          targetLow = max LF_LOW_HZ (targetHz - TARGET_HALF_BAND_HZ);
          targetHigh = min HF_HIGH_HZ (targetHz + TARGET_HALF_BAND_HZ);
          targetBand = integrateBand psd targetLow targetHigh;
          peak = foldl (peakStep psd) (0, 0) [0..<length (psd_f psd)]
      in \<lparr>coherenceScore = (if totalPower > 0 then targetBand / totalPower else 0),
          peakFrequencyHz = fst peak,
          peakPower = snd peak,
          targetBandPower = targetBand\<rparr>)"

section \<open>Median\<close>

text \<open>
  \<open>median\<close> is declared twice in the source, in \<open>analysis/artifact.ts\<close> and in the
  application module, with the same body: a sorted copy (numeric comparator), the middle
  element, or the mean of the two middle elements when the length is even.
\<close>

definition median :: "real list \<Rightarrow> real" where
  "median values =
     (if length values = 0 then 0
      else
        let sorted = sort values;
            mid = length sorted div 2
        in if length sorted mod 2 = 0 then (sorted ! (mid - 1) + sorted ! mid) / 2
           else sorted ! mid)"

section \<open>Application module: signal quality\<close>



text \<open>
  The local constants of \<open>computeSignalQuality\<close> that make up the outlier rule, each as
  a function of the in-range window, in exact arithmetic.
\<close>

definition sq_med :: "real list \<Rightarrow> real" where
  "sq_med inRange = median inRange"

definition sq_deviations :: "real list \<Rightarrow> real list" where
  "sq_deviations inRange = map (\<lambda>rr. \<bar>rr - sq_med inRange\<bar>) inRange"

definition sq_mad :: "real list \<Rightarrow> real" where
  "sq_mad inRange = median (sq_deviations inRange)"

definition sq_threshold :: "real list \<Rightarrow> real" where
  "sq_threshold inRange =
     (if sq_mad inRange > 0 then 3 * 1.4826 * sq_mad inRange else 0.18)"

definition outlierCount :: "real list \<Rightarrow> nat" where
  "outlierCount inRange =
     length (filter (\<lambda>rr. \<bar>rr - sq_med inRange\<bar> > sq_threshold inRange) inRange)"

definition outlierRatio :: "real list \<Rightarrow> real" where
  "outlierRatio inRange =
     (if length inRange > 0 then real (outlierCount inRange) / real (length inRange) else 1)"

subsection \<open>The score, in the arithmetic of the source\<close>

text \<open>
  The score is a rounded integer, and the label is read from it, so the last bit of the
  weighted composite decides them where the composite lies at a half. The whole of
  \<open>computeSignalQuality\<close> is therefore modelled in the arithmetic of the source: every
  operation \<open>+\<close>, \<open>-\<close>, \<open>*\<close>, \<open>/\<close> and \<open>Math.sqrt\<close> on doubles returns the exact result
  rounded to a double, and every decimal literal stands for the double nearest to it. The
  rounding is the parameter \<open>fl\<close> of the definitions below; exact arithmetic is the case
  \<open>fl = (\<lambda>x. x)\<close>. Comparisons, \<open>Math.abs\<close>, \<open>Math.min\<close>, \<open>Math.max\<close>, \<open>Math.round\<close>,
  the conversion of a length to a number, and the small integer literals are exact.
\<close>


definition median_fl :: "(real \<Rightarrow> real) \<Rightarrow> real list \<Rightarrow> real" where
  "median_fl fl values =
     (if length values = 0 then 0
      else
        let sorted = sort values;
            mid = length sorted div 2
        in if length sorted mod 2 = 0 then fl (fl (sorted ! (mid - 1) + sorted ! mid) / 2)
           else sorted ! mid)"

definition sq_med_fl :: "(real \<Rightarrow> real) \<Rightarrow> real list \<Rightarrow> real" where
  "sq_med_fl fl inRange = median_fl fl inRange"

definition sq_deviations_fl :: "(real \<Rightarrow> real) \<Rightarrow> real list \<Rightarrow> real list" where
  "sq_deviations_fl fl inRange = map (\<lambda>rr. \<bar>fl (rr - sq_med_fl fl inRange)\<bar>) inRange"

definition sq_mad_fl :: "(real \<Rightarrow> real) \<Rightarrow> real list \<Rightarrow> real" where
  "sq_mad_fl fl inRange = median_fl fl (sq_deviations_fl fl inRange)"

definition sq_threshold_fl :: "(real \<Rightarrow> real) \<Rightarrow> real list \<Rightarrow> real" where
  "sq_threshold_fl fl inRange =
     (if sq_mad_fl fl inRange > 0 then fl (fl (3 * fl 1.4826) * sq_mad_fl fl inRange)
      else fl 0.18)"

definition outlierCount_fl :: "(real \<Rightarrow> real) \<Rightarrow> real list \<Rightarrow> nat" where
  "outlierCount_fl fl inRange =
     length (filter (\<lambda>rr. \<bar>fl (rr - sq_med_fl fl inRange)\<bar> > sq_threshold_fl fl inRange)
               inRange)"


definition outlierRatio_fl :: "(real \<Rightarrow> real) \<Rightarrow> real list \<Rightarrow> real" where
  "outlierRatio_fl fl inRange =
     (if length inRange > 0 then fl (real (outlierCount_fl fl inRange) / real (length inRange))
      else 1)"









section \<open>analysis/artifact.ts\<close>

text \<open>A thrown \<open>Error\<close>, with its message.\<close>

datatype error = Error string

record ArtifactOptions =
  minRrSec :: real
  maxRrSec :: real
  windowSize :: nat
  sigma :: real

definition DEFAULT_OPTIONS :: ArtifactOptions where
  "DEFAULT_OPTIONS = \<lparr>minRrSec = 0.3, maxRrSec = 2, windowSize = 5, sigma = 3\<rparr>"

record CleanedRrData =
  cleaned_rrTimes_s :: "real list"
  cleaned_rr_s :: "real list"

text \<open>
  The first loop of \<open>cleanRrSeries\<close>, over two arrays of equal length: a sample is pushed
  to \<open>rangeTimes\<close> and \<open>rangeValues\<close> when both entries are finite and the value is not
  outside \<open>[minRrSec, maxRrSec]\<close>. What is pushed is finite, so the two arrays hold reals.
\<close>

fun rangeLoop :: "ArtifactOptions \<Rightarrow> number list \<Rightarrow> number list \<Rightarrow> real list \<times> real list" where
  "rangeLoop config (Fin t # ts) (Fin v # vs) =
     (if v < minRrSec config \<or> v > maxRrSec config then rangeLoop config ts vs
      else (t # fst (rangeLoop config ts vs), v # snd (rangeLoop config ts vs)))"
| "rangeLoop config (t # ts) (v # vs) = rangeLoop config ts vs"
| "rangeLoop config ts vs = ([], [])"

text \<open>
  \<open>rangeValues.slice(start, end + 1)\<close> with \<open>start = max(0, i - halfWindow)\<close> (the
  truncating subtraction of \<^typ>\<open>nat\<close>) and \<open>end = min(length - 1, i + halfWindow)\<close>.
\<close>

definition localWindow :: "nat \<Rightarrow> real list \<Rightarrow> nat \<Rightarrow> real list" where
  "localWindow halfWindow rangeValues i =
     (let start = i - halfWindow;
          end = min (length rangeValues - 1) (i + halfWindow)
      in take (end + 1 - start) (drop start rangeValues))"

text \<open>The body of the second loop: whether sample \<open>i\<close> is pushed to the output.\<close>

definition hampelKeep :: "ArtifactOptions \<Rightarrow> nat \<Rightarrow> real list \<Rightarrow> nat \<Rightarrow> bool" where
  "hampelKeep config halfWindow rangeValues i =
     (let local = localWindow halfWindow rangeValues i;
          localMedian = median local;
          deviations = map (\<lambda>v. \<bar>v - localMedian\<bar>) local;
          mad = median deviations
      in if mad = 0 then True
         else
           let scaledMad = 1.4826 * mad;
               threshold = sigma config * scaledMad;
               delta = \<bar>rangeValues ! i - localMedian\<bar>
           in delta \<le> threshold)"

definition cleanRrSeriesWith ::
  "ArtifactOptions \<Rightarrow> number list \<Rightarrow> number list \<Rightarrow> error + CleanedRrData" where
  "cleanRrSeriesWith config rrTimes_s rr_s =
     (if length rrTimes_s \<noteq> length rr_s
      then Inl (Error ''rrTimes_s and rr_s lengths do not match'')
      else
        let rangeTimes = fst (rangeLoop config rrTimes_s rr_s);
            rangeValues = snd (rangeLoop config rrTimes_s rr_s)
        in if length rangeValues < 3
           then Inr \<lparr>cleaned_rrTimes_s = rangeTimes, cleaned_rr_s = rangeValues\<rparr>
           else
             let halfWindow = windowSize config div 2;
                 kept = filter (hampelKeep config halfWindow rangeValues)
                          [0..<length rangeValues]
             in Inr \<lparr>cleaned_rrTimes_s = map (\<lambda>i. rangeTimes ! i) kept,
                     cleaned_rr_s = map (\<lambda>i. rangeValues ! i) kept\<rparr>)"

text \<open>The call with no options, as the pipeline makes it.\<close>

definition cleanRrSeries :: "number list \<Rightarrow> number list \<Rightarrow> error + CleanedRrData" where
  "cleanRrSeries rrTimes_s rr_s = cleanRrSeriesWith DEFAULT_OPTIONS rrTimes_s rr_s"

text \<open>
  The range filter as the specification words it: a sample passes when its timestamp and
  value are finite and the value lies in \<open>[0.3, 2.0]\<close>.
\<close>

fun passesRangeFilter :: "number \<times> number \<Rightarrow> bool" where
  "passesRangeFilter (Fin t, Fin v) = (0.3 \<le> v \<and> v \<le> 2)"
| "passesRangeFilter (t, v) = False"

section \<open>analysis/metrics.ts\<close>

record TimeDomainMetrics =
  meanHr :: real
  meanRr :: real
  rmssd :: real
  sdnn :: real
  pnn50 :: real

text \<open>\<open>mean\<close> is declared in \<open>analysis/metrics.ts\<close> and in \<open>analysis/psd.ts\<close>, with the same body.\<close>

definition mean :: "real list \<Rightarrow> real" where
  "mean values =
     (if length values = 0 then 0
      else foldl (\<lambda>sum v. sum + v) 0 values / real (length values))"

definition std :: "real list \<Rightarrow> real" where
  "std values =
     (if length values < 2 then 0
      else
        let m = mean values;
            variance = foldl (\<lambda>sum v. let delta = v - m in sum + delta * delta) 0 values
        in sqrt (variance / real (length values - 1)))"

definition computeTimeDomain :: "real list \<Rightarrow> TimeDomainMetrics" where
  "computeTimeDomain rr_s =
     (if length rr_s = 0
      then \<lparr>meanHr = 0, meanRr = 0, rmssd = 0, sdnn = 0, pnn50 = 0\<rparr>
      else
        let mRr = mean rr_s;
            mHr = (if mRr > 0 then 60 / mRr else 0);
            sd = std rr_s;
            diffs = map (\<lambda>i. rr_s ! i - rr_s ! (i - 1)) [1..<length rr_s];
            rms = (if length diffs > 0
                   then sqrt (foldl (\<lambda>sum v. sum + v * v) 0 diffs / real (length diffs))
                   else 0);
            nn50Count = length (filter (\<lambda>v. \<bar>v\<bar> > 0.05) diffs);
            p50 = (if length diffs > 0 then (real nn50Count / real (length diffs)) * 100 else 0)
        in \<lparr>meanHr = mHr, meanRr = mRr, rmssd = rms, sdnn = sd, pnn50 = p50\<rparr>)"

section \<open>analysis/psd.ts: resampling\<close>

record ResampledSignal =
  rs_fs :: real
  rs_t :: "real list"
  rs_y :: "real list"

text \<open>
  The inner \<open>while\<close> loop: the cursor advances while it is below \<open>length - 2\<close> and the
  next source time is before \<open>currentTime\<close>. It runs only on arrays of length at least 2.
\<close>

function advanceSource :: "real list \<Rightarrow> real \<Rightarrow> nat \<Rightarrow> nat" where
  "advanceSource rrTimes_s currentTime sourceIndex =
     (if sourceIndex < length rrTimes_s - 2 \<and> rrTimes_s ! (sourceIndex + 1) < currentTime
      then advanceSource rrTimes_s currentTime (sourceIndex + 1)
      else sourceIndex)"
  by pat_completeness auto
termination
  by (relation "measure (\<lambda>(rrTimes_s, currentTime, sourceIndex). length rrTimes_s - sourceIndex)")
     auto

text \<open>
  One round of the \<open>for\<close> loop at \<open>currentTime\<close>, on the state
  \<open>(sourceIndex, t, y)\<close>: the cursor advances, and a sample is pushed unless the
  bracketing source interval has no length (\<open>continue\<close>).
\<close>

definition resampleStep ::
  "real list \<Rightarrow> real list \<Rightarrow> real \<Rightarrow> nat \<times> real list \<times> real list
     \<Rightarrow> nat \<times> real list \<times> real list" where
  "resampleStep rrTimes_s rr_s currentTime state =
     (case state of (sourceIndex0, t, y) \<Rightarrow>
        let sourceIndex = advanceSource rrTimes_s currentTime sourceIndex0;
            t0 = rrTimes_s ! sourceIndex;
            t1 = rrTimes_s ! (sourceIndex + 1);
            y0 = rr_s ! sourceIndex;
            y1 = rr_s ! (sourceIndex + 1);
            span = t1 - t0
        in if span \<le> 0 then (sourceIndex, t, y)
           else
             let alpha = (currentTime - t0) / span;
                 interpolated = y0 + alpha * (y1 - y0)
             in (sourceIndex, t @ [currentTime], y @ [interpolated]))"

text \<open>
  The \<open>for\<close> loop itself, \<open>currentTime\<close> growing by \<open>dt\<close> while it is at most \<open>tEnd\<close>.
  With \<open>dt \<le> 0\<close> it never ends, which is the value \<open>None\<close>.
\<close>

partial_function (option) resampleLoop ::
  "real list \<Rightarrow> real list \<Rightarrow> real \<Rightarrow> real \<Rightarrow> real \<Rightarrow> nat \<times> real list \<times> real list
     \<Rightarrow> (real list \<times> real list) option" where
  "resampleLoop rrTimes_s rr_s dt tEnd currentTime state =
     (if currentTime \<le> tEnd
      then resampleLoop rrTimes_s rr_s dt tEnd (currentTime + dt)
             (resampleStep rrTimes_s rr_s currentTime state)
      else Some (fst (snd state), snd (snd state)))"

text \<open>
  \<open>resampleRrToUniform\<close>. For \<open>fs = 0\<close> the step \<open>1 / fs\<close> is \<open>Infinity\<close> in the source:
  the loop runs its body once, at \<open>tStart\<close>, and ends. Every other \<open>fs\<close> gives the finite
  step \<open>1 / fs\<close>.
\<close>

definition resampleRrToUniform :: "real list \<Rightarrow> real list \<Rightarrow> real \<Rightarrow> ResampledSignal option" where
  "resampleRrToUniform rrTimes_s rr_s fs =
     (if length rrTimes_s \<noteq> length rr_s \<or> length rr_s < 2
      then Some \<lparr>rs_fs = fs, rs_t = [], rs_y = []\<rparr>
      else
        let tStart = rrTimes_s ! 0;
            tEnd = rrTimes_s ! (length rrTimes_s - 1)
        in if tEnd \<le> tStart then Some \<lparr>rs_fs = fs, rs_t = [], rs_y = []\<rparr>
           else if fs = 0 then
             (case resampleStep rrTimes_s rr_s tStart (0, [], []) of
                (sourceIndex, t, y) \<Rightarrow> Some \<lparr>rs_fs = fs, rs_t = t, rs_y = y\<rparr>)
           else
             (case resampleLoop rrTimes_s rr_s (1 / fs) tEnd tStart (0, [], []) of
                None \<Rightarrow> None
              | Some (t, y) \<Rightarrow> Some \<lparr>rs_fs = fs, rs_t = t, rs_y = y\<rparr>))"

section \<open>analysis/psd.ts: Welch spectral estimate\<close>

text \<open>\<open>2 ** Math.floor(Math.log2(value))\<close>, on the array lengths it is called with.\<close>

definition highestPowerOfTwo :: "nat \<Rightarrow> nat" where
  "highestPowerOfTwo v = (if v < 1 then 0 else 2 ^ nat \<lfloor>log 2 (real v)\<rfloor>)"

definition hannWindow :: "nat \<Rightarrow> real list" where
  "hannWindow usableLength =
     map (\<lambda>i. 0.5 * (1 - cos ((2 * pi * real i) / (real usableLength - 1)))) [0..<usableLength]"

definition windowPower :: "nat \<Rightarrow> real" where
  "windowPower usableLength = foldl (\<lambda>sum v. sum + v * v) 0 (hannWindow usableLength)"

definition welchStep :: "nat \<Rightarrow> real \<Rightarrow> nat" where
  "welchStep usableLength overlap = max 1 (nat \<lfloor>real usableLength * (1 - overlap)\<rfloor>)"

text \<open>
  The two innermost loops for the segment that begins at \<open>start\<close> and the bin \<open>k\<close>: the
  pair \<open>(re, im)\<close> accumulated over the samples of the segment, and the power the bin
  contributes.
\<close>

definition dftStep :: "real list \<Rightarrow> real \<Rightarrow> real list \<Rightarrow> nat \<Rightarrow> nat \<Rightarrow> real \<times> real \<Rightarrow> nat \<Rightarrow> real \<times> real" where
  "dftStep segment segmentMean window usableLength k acc n =
     (let sample = (segment ! n - segmentMean) * window ! n;
          angle = (2 * pi * real k * real n) / real usableLength
      in (fst acc + sample * cos angle, snd acc - sample * sin angle))"

definition segmentPower :: "real list \<Rightarrow> real \<Rightarrow> nat \<Rightarrow> nat \<Rightarrow> nat \<Rightarrow> real" where
  "segmentPower signal fs usableLength start k =
     (let segment = take usableLength (drop start signal);
          segmentMean = mean segment;
          acc = foldl (dftStep segment segmentMean (hannWindow usableLength) usableLength k)
                  (0, 0) [0..<usableLength];
          re = fst acc;
          im = snd acc
      in (re * re + im * im) / (fs * windowPower usableLength))"

text \<open>
  The loop over segments, on the state \<open>(accumulated, segmentCount)\<close>; \<open>start\<close> grows by
  the step, which is at least 1, while a whole segment fits.
\<close>

function welchLoop ::
  "real list \<Rightarrow> real \<Rightarrow> nat \<Rightarrow> real \<Rightarrow> nat \<Rightarrow> real list \<times> nat \<Rightarrow> real list \<times> nat" where
  "welchLoop signal fs usableLength overlap start state =
     (if start + usableLength \<le> length signal
      then welchLoop signal fs usableLength overlap (start + welchStep usableLength overlap)
             (map (\<lambda>k. fst state ! k + segmentPower signal fs usableLength start k)
                  [0..<usableLength div 2 + 1],
              snd state + 1)
      else state)"
  by pat_completeness auto
termination
  by (relation "measure (\<lambda>(signal, fs, usableLength, overlap, start, state).
                            Suc (length signal) - start)")
     (auto simp: welchStep_def)

definition welchPsdWith :: "real list \<Rightarrow> real \<Rightarrow> nat \<Rightarrow> real \<Rightarrow> PsdData" where
  "welchPsdWith signal fs segmentLength overlap =
     (let usableLength = highestPowerOfTwo (min segmentLength (length signal))
      in if usableLength < 16 then \<lparr>psd_f = [], psd_p = []\<rparr>
         else
           let bins = usableLength div 2 + 1;
               final = welchLoop signal fs usableLength overlap 0 (replicate bins 0, 0);
               accumulated = fst final;
               segmentCount = snd final
           in if segmentCount = 0 then \<lparr>psd_f = [], psd_p = []\<rparr>
              else
                \<lparr>psd_f = map (\<lambda>k. (real k * fs) / real usableLength) [0..<bins],
                 psd_p = map (\<lambda>k. let power = accumulated ! k / real segmentCount
                                    in if k > 0 \<and> k < bins - 1 then power * 2 else power)
                             [0..<bins]\<rparr>)"

text \<open>The call with the default segment length 256 and overlap 0.5, as the pipeline makes it.\<close>

definition welchPsd :: "real list \<Rightarrow> real \<Rightarrow> PsdData" where
  "welchPsd signal fs = welchPsdWith signal fs 256 0.5"

section \<open>analysis/worker.ts\<close>

record AnalyzePayload =
  payload_rrTimes_s :: "number list"
  payload_rr_s :: "number list"
  payload_targetHz :: real

text \<open>
  \<open>AnalysisMetrics\<close> is the spread of the time-domain and the coherence metrics together
  with the three band powers; the two spread records are kept as components.
\<close>

record AnalysisMetrics =
  timeMetrics :: TimeDomainMetrics
  coherence :: CoherenceMetrics
  lfPower :: real
  hfPower :: real
  totalPower :: real

record AnalysisResult =
  result_metrics :: AnalysisMetrics
  result_psd :: PsdData
  result_cleaned :: CleanedRrData

text \<open>
  \<open>analyze\<close>: \<open>Inl\<close> is the exception \<open>cleanRrSeries\<close> throws, which ends the function
  before any later stage; \<open>None\<close> is a resampling loop that does not end.
\<close>

definition analyze :: "number list \<Rightarrow> number list \<Rightarrow> real \<Rightarrow> (error + AnalysisResult) option" where
  "analyze rrTimes_s rr_s targetHz =
     (case cleanRrSeries rrTimes_s rr_s of
        Inl e \<Rightarrow> Some (Inl e)
      | Inr cleanedData \<Rightarrow>
          let tm = computeTimeDomain (cleaned_rr_s cleanedData)
          in case resampleRrToUniform (cleaned_rrTimes_s cleanedData) (cleaned_rr_s cleanedData) 4 of
               None \<Rightarrow> None
             | Some resampled \<Rightarrow>
                 let psdData = welchPsd (rs_y resampled) (rs_fs resampled);
                     coh = computeCoherence psdData targetHz;
                     lf = integrateBand psdData 0.04 0.15;
                     hf = integrateBand psdData 0.15 0.4;
                     total = integrateBand psdData 0.04 0.4
                 in Some (Inr \<lparr>result_metrics =
                                 \<lparr>timeMetrics = tm, coherence = coh, lfPower = lf,
                                  hfPower = hf, totalPower = total\<rparr>,
                               result_psd = psdData,
                               result_cleaned = cleanedData\<rparr>))"

text \<open>
  The messages of the worker. A request is an \<open>analyze\<close> message or, at run time, anything
  else; a response is a result or an error with its message, never both.
\<close>

datatype WorkerRequest = AnalyzeMessage AnalyzePayload | OtherMessage

datatype WorkerResponseMessage = ResultMessage AnalysisResult | ErrorMessage string

text \<open>
  The message handler: the list of messages it posts (none for a request that is not
  \<open>analyze\<close>), or \<open>None\<close> when \<open>analyze\<close> does not return. An exception is caught and
  posted as an error message carrying the message of the exception.
\<close>

definition onMessage :: "WorkerRequest \<Rightarrow> WorkerResponseMessage list option" where
  "onMessage message =
     (case message of
        OtherMessage \<Rightarrow> Some []
      | AnalyzeMessage payload \<Rightarrow>
          (case analyze (payload_rrTimes_s payload) (payload_rr_s payload)
                  (payload_targetHz payload) of
             None \<Rightarrow> None
           | Some (Inr result) \<Rightarrow> Some [ResultMessage result]
           | Some (Inl (Error msg)) \<Rightarrow> Some [ErrorMessage msg]))"

section \<open>Application module: calibration scan\<close>

record CalibrationPoint =
  cp_frequencyHz :: real
  cp_breathsPerMin :: real
  cp_score :: real
  cp_peakFrequencyHz :: real
  cp_peakPower :: real

record CalibrationSummary =
  scanned :: "CalibrationPoint list"
  best :: "CalibrationPoint option"

record CalibrationSegment =
  seg_frequencyHz :: real
  seg_rrTimes_s :: "number list"
  seg_rr_s :: "number list"

definition CALIBRATION_FREQUENCIES_HZ :: "real list" where
  "CALIBRATION_FREQUENCIES_HZ = [0.07, 0.08, 0.09, 0.1, 0.11, 0.12]"

definition CALIBRATION_STEP_SEC :: real where
  "CALIBRATION_STEP_SEC = 20"

text \<open>
  The test \<open>t >= start && t <= end\<close> on \<open>t = rrTimes_s[i]\<close>: it fails for \<open>undefined\<close>
  (an index past the end of \<open>rrTimes_s\<close>), for \<open>NaN\<close> and for both infinities.
\<close>

definition inSegment :: "number list \<Rightarrow> real \<Rightarrow> real \<Rightarrow> nat \<Rightarrow> bool" where
  "inSegment rrTimes_s start end i =
     (i < length rrTimes_s \<and>
      (case rrTimes_s ! i of Fin t \<Rightarrow> t \<ge> start \<and> t \<le> end | _ \<Rightarrow> False))"

definition calculateCalibrationSegments ::
  "number list \<Rightarrow> number list \<Rightarrow> real list \<Rightarrow> real \<Rightarrow> CalibrationSegment list" where
  "calculateCalibrationSegments rrTimes_s rr_s frequenciesHz stepSec =
     map (\<lambda>index.
            let start = real index * stepSec;
                end = (real index + 1) * stepSec;
                pushed = filter (inSegment rrTimes_s start end) [0..<length rr_s]
            in \<lparr>seg_frequencyHz = frequenciesHz ! index,
                seg_rrTimes_s = map (\<lambda>i. rrTimes_s ! i) pushed,
                seg_rr_s = map (\<lambda>i. rr_s ! i) pushed\<rparr>)
         [0..<length frequenciesHz]"

text \<open>\<open>workerRef.current\<close>: \<open>null\<close>, or the worker that runs \<open>analysis/worker.ts\<close>.\<close>

datatype WorkerRef = NoWorker | AnalysisWorker

text \<open>
  \<open>analyzeInWorker\<close>: the promise is rejected (\<open>Inl\<close>) when there is no worker or when
  the worker answers with an error message, and resolved (\<open>Inr\<close>) with the payload of a
  result message; \<open>None\<close> is a promise that is never settled.
\<close>

definition analyzeInWorker :: "WorkerRef \<Rightarrow> AnalyzePayload \<Rightarrow> (error + AnalysisResult) option" where
  "analyzeInWorker worker payload =
     (case worker of
        NoWorker \<Rightarrow> Some (Inl (Error ''analysis worker is not ready''))
      | AnalysisWorker \<Rightarrow>
          (case onMessage (AnalyzeMessage payload) of
             None \<Rightarrow> None
           | Some [] \<Rightarrow> None
           | Some (ResultMessage result # later) \<Rightarrow> Some (Inr result)
           | Some (ErrorMessage msg # later) \<Rightarrow> Some (Inl (Error msg))))"

definition segmentPayload :: "CalibrationSegment \<Rightarrow> AnalyzePayload" where
  "segmentPayload segment =
     \<lparr>payload_rrTimes_s = seg_rrTimes_s segment,
      payload_rr_s = seg_rr_s segment,
      payload_targetHz = seg_frequencyHz segment\<rparr>"

definition zeroPoint :: "CalibrationSegment \<Rightarrow> CalibrationPoint" where
  "zeroPoint segment =
     \<lparr>cp_frequencyHz = seg_frequencyHz segment,
      cp_breathsPerMin = seg_frequencyHz segment * 60,
      cp_score = 0, cp_peakFrequencyHz = 0, cp_peakPower = 0\<rparr>"

definition resultPoint :: "CalibrationSegment \<Rightarrow> AnalysisResult \<Rightarrow> CalibrationPoint" where
  "resultPoint segment result =
     \<lparr>cp_frequencyHz = seg_frequencyHz segment,
      cp_breathsPerMin = seg_frequencyHz segment * 60,
      cp_score = coherenceScore (coherence (result_metrics result)),
      cp_peakFrequencyHz = peakFrequencyHz (coherence (result_metrics result)),
      cp_peakPower = peakPower (coherence (result_metrics result))\<rparr>"

text \<open>
  The loop over the segments. The state is the array \<open>scanned\<close> and, as a record of the
  effect, the payloads that have been handed to \<open>analyzeInWorker\<close> so far. A rejected
  \<open>await\<close> ends the loop and the function with the error.
\<close>

fun scanSegments ::
  "WorkerRef \<Rightarrow> CalibrationSegment list \<Rightarrow> CalibrationPoint list \<times> AnalyzePayload list
     \<Rightarrow> ((error + CalibrationPoint list) \<times> AnalyzePayload list) option" where
  "scanSegments worker [] state = Some (Inr (fst state), snd state)"
| "scanSegments worker (segment # rest) state =
     (if length (seg_rr_s segment) < 16
      then scanSegments worker rest (fst state @ [zeroPoint segment], snd state)
      else
        (case analyzeInWorker worker (segmentPayload segment) of
           None \<Rightarrow> None
         | Some (Inl e) \<Rightarrow> Some (Inl e, snd state @ [segmentPayload segment])
         | Some (Inr result) \<Rightarrow>
             scanSegments worker rest
               (fst state @ [resultPoint segment result], snd state @ [segmentPayload segment])))"

text \<open>The reduction that selects \<open>best\<close>, from \<open>undefined\<close>.\<close>

definition bestStep :: "CalibrationPoint option \<Rightarrow> CalibrationPoint \<Rightarrow> CalibrationPoint option" where
  "bestStep current point =
     (case current of
        None \<Rightarrow> Some point
      | Some c \<Rightarrow> if cp_score point > cp_score c then Some point else Some c)"

definition summaryOf :: "CalibrationPoint list \<Rightarrow> CalibrationSummary" where
  "summaryOf points = \<lparr>scanned = points, best = foldl bestStep None points\<rparr>"

text \<open>
  The body of \<open>performCalibrationSummary\<close>, for any list of candidate frequencies and any
  step; the function itself runs it on the two constants of the module.
\<close>

definition scanCalibration ::
  "WorkerRef \<Rightarrow> number list \<Rightarrow> number list \<Rightarrow> real list \<Rightarrow> real
     \<Rightarrow> ((error + CalibrationSummary) \<times> AnalyzePayload list) option" where
  "scanCalibration worker rrTimes_s rr_s frequenciesHz stepSec =
     (case scanSegments worker
             (calculateCalibrationSegments rrTimes_s rr_s frequenciesHz stepSec) ([], []) of
        None \<Rightarrow> None
      | Some (Inl e, calls) \<Rightarrow> Some (Inl e, calls)
      | Some (Inr points, calls) \<Rightarrow> Some (Inr (summaryOf points), calls))"

definition performCalibrationSummary ::
  "WorkerRef \<Rightarrow> number list \<Rightarrow> number list
     \<Rightarrow> ((error + CalibrationSummary) \<times> AnalyzePayload list) option" where
  "performCalibrationSummary worker rrTimes_s rr_s =
     scanCalibration worker rrTimes_s rr_s CALIBRATION_FREQUENCIES_HZ CALIBRATION_STEP_SEC"

section \<open>Band integration: properties\<close>

lemma integrateStep_split:
  assumes "a \<le> b" "b \<le> c" "A + B = C + D"
  shows "integrateStep psd a b A i + integrateStep psd b c B i
       = integrateStep psd a c C i + integrateStep psd b b D i"
  using assms by (auto simp: integrateStep_def Let_def)

lemma integrateLoop_split:
  assumes "a \<le> b" "b \<le> c"
  shows "A + B = C + D \<Longrightarrow>
         foldl (integrateStep psd a b) A xs + foldl (integrateStep psd b c) B xs
       = foldl (integrateStep psd a c) C xs + foldl (integrateStep psd b b) D xs"
proof (induction xs arbitrary: A B C D)
  case Nil
  then show ?case by simp
next
  case (Cons i xs)
  have "integrateStep psd a b A i + integrateStep psd b c B i
      = integrateStep psd a c C i + integrateStep psd b b D i"
    using assms Cons.prems by (rule integrateStep_split)
  then show ?case using Cons.IH by simp
qed

text \<open>
  C1 (as the code has it). Inclusion of a pair of bins is by overlap with the band, so a
  pair that contains the split point \<open>b\<close> is counted in both halves. For \<open>a \<le> b \<le> c\<close>
  the two halves add up to the whole band plus the degenerate band \<open>[b, b]\<close>, which is
  exactly the area of the pairs that contain \<open>b\<close>.
\<close>

theorem integrateBand_split:
  assumes "a \<le> b" "b \<le> c"
  shows "integrateBand psd a b + integrateBand psd b c
       = integrateBand psd a c + integrateBand psd b b"
proof -
  have "foldl (integrateStep psd a b) 0 xs + foldl (integrateStep psd b c) 0 xs
      = foldl (integrateStep psd a c) 0 xs + foldl (integrateStep psd b b) 0 xs" for xs
    by (rule integrateLoop_split [OF assms]) simp
  then show ?thesis by (simp add: integrateBand_def)
qed

theorem integrateBand_split_witness:
  "(0::real) \<le> 1/2 \<and> (1/2::real) \<le> 1 \<and>
   integrateBand \<lparr>psd_f = [0, 1], psd_p = [1, 1]\<rparr> 0 (1/2)
     + integrateBand \<lparr>psd_f = [0, 1], psd_p = [1, 1]\<rparr> (1/2) 1
   = integrateBand \<lparr>psd_f = [0, 1], psd_p = [1, 1]\<rparr> 0 1
     + integrateBand \<lparr>psd_f = [0, 1], psd_p = [1, 1]\<rparr> (1/2) (1/2)"
  using integrateBand_split [of 0 "1/2" 1 "\<lparr>psd_f = [0, 1], psd_p = [1, 1]\<rparr>"]
  by simp

text \<open>
  C1 as the specification words it fails: on the two-bin spectrum with frequencies
  \<open>0, 1\<close> and powers \<open>1, 1\<close> the band \<open>[0, 1]\<close> has area \<open>1\<close>, and so has each of
  \<open>[0, 1/2]\<close> and \<open>[1/2, 1]\<close>.
\<close>

theorem integrateBand_additive_counterexample:
  "sorted_wrt (<) (psd_f \<lparr>psd_f = [0, 1], psd_p = [1, 1]\<rparr>) \<and>
   list_all (\<lambda>x. 0 \<le> x) (psd_p \<lparr>psd_f = [0, 1], psd_p = [1, 1]\<rparr>) \<and>
   hd (psd_f \<lparr>psd_f = [0, 1], psd_p = [1, 1]\<rparr>) \<le> 0 \<and>
   (0::real) \<le> 1/2 \<and> (1/2::real) \<le> 1 \<and>
   1 \<le> last (psd_f \<lparr>psd_f = [0, 1], psd_p = [1, 1]\<rparr>) \<and>
   integrateBand \<lparr>psd_f = [0, 1], psd_p = [1, 1]\<rparr> 0 1
     \<noteq> integrateBand \<lparr>psd_f = [0, 1], psd_p = [1, 1]\<rparr> 0 (1/2)
       + integrateBand \<lparr>psd_f = [0, 1], psd_p = [1, 1]\<rparr> (1/2) 1"
  by (simp add: integrateBand_def integrateStep_def upt_rec)

section \<open>Coherence score\<close>

lemma integrateStep_mono:
  assumes "lo' \<le> lo" "hi \<le> hi'" "A \<le> B"
    and "0 \<le> psd_p psd ! (i - 1)" "0 \<le> psd_p psd ! i"
  shows "integrateStep psd lo hi A i \<le> integrateStep psd lo' hi' B i"
proof -
  have "0 \<le> (psd_p psd ! (i - 1) + psd_p psd ! i) / 2 * d" if "0 < d" for d :: real
    using assms(4,5) that by simp
  then show ?thesis
    using assms(1-3) by (auto simp: integrateStep_def Let_def intro: add_increasing2)
qed

lemma integrateLoop_mono:
  assumes "lo' \<le> lo" "hi \<le> hi'" "\<forall>x \<in> set (psd_p psd). 0 \<le> x"
  shows "A \<le> B \<Longrightarrow> \<forall>i \<in> set xs. i < length (psd_p psd) \<Longrightarrow>
         foldl (integrateStep psd lo hi) A xs \<le> foldl (integrateStep psd lo' hi') B xs"
proof (induction xs arbitrary: A B)
  case Nil
  then show ?case by simp
next
  case (Cons i xs)
  have "i < length (psd_p psd)" "i - 1 < length (psd_p psd)"
    using Cons.prems(2) by auto
  then have "0 \<le> psd_p psd ! (i - 1)" "0 \<le> psd_p psd ! i"
    using assms(3) by (auto simp: all_set_conv_all_nth)
  then have "integrateStep psd lo hi A i \<le> integrateStep psd lo' hi' B i"
    using assms(1,2) Cons.prems(1) by (intro integrateStep_mono)
  then show ?case using Cons.IH Cons.prems(2) by simp
qed

lemma integrateBand_mono:
  assumes "lo' \<le> lo" "hi \<le> hi'" "\<forall>x \<in> set (psd_p psd). 0 \<le> x"
  shows "integrateBand psd lo hi \<le> integrateBand psd lo' hi'"
proof (cases "length (psd_f psd) = 0 \<or> length (psd_f psd) \<noteq> length (psd_p psd)")
  case True
  then show ?thesis by (simp add: integrateBand_def)
next
  case False
  then have "\<forall>i \<in> set [1..<length (psd_f psd)]. i < length (psd_p psd)"
    by simp
  then have "foldl (integrateStep psd lo hi) 0 [1..<length (psd_f psd)]
      \<le> foldl (integrateStep psd lo' hi') 0 [1..<length (psd_f psd)]"
    using integrateLoop_mono [OF assms, of 0 0] by blast
  then show ?thesis using False by (simp add: integrateBand_def)
qed

lemma integrateStep_nonneg:
  assumes "0 \<le> A" "0 \<le> psd_p psd ! (i - 1)" "0 \<le> psd_p psd ! i"
  shows "0 \<le> integrateStep psd lo hi A i"
  using assms by (auto simp: integrateStep_def Let_def)

lemma integrateLoop_nonneg:
  assumes "\<forall>x \<in> set (psd_p psd). 0 \<le> x"
  shows "0 \<le> A \<Longrightarrow> \<forall>i \<in> set xs. i < length (psd_p psd) \<Longrightarrow>
         0 \<le> foldl (integrateStep psd lo hi) A xs"
proof (induction xs arbitrary: A)
  case Nil
  then show ?case by simp
next
  case (Cons i xs)
  have "i < length (psd_p psd)" "i - 1 < length (psd_p psd)"
    using Cons.prems(2) by auto
  then have "0 \<le> psd_p psd ! (i - 1)" "0 \<le> psd_p psd ! i"
    using assms by (auto simp: all_set_conv_all_nth)
  then have "0 \<le> integrateStep psd lo hi A i"
    using Cons.prems(1) by (intro integrateStep_nonneg)
  then show ?case using Cons.IH Cons.prems(2) by simp
qed

lemma integrateBand_nonneg:
  assumes "\<forall>x \<in> set (psd_p psd). 0 \<le> x"
  shows "0 \<le> integrateBand psd lo hi"
proof (cases "length (psd_f psd) = 0 \<or> length (psd_f psd) \<noteq> length (psd_p psd)")
  case True
  then show ?thesis by (simp add: integrateBand_def)
next
  case False
  then have "\<forall>i \<in> set [1..<length (psd_f psd)]. i < length (psd_p psd)"
    by simp
  then have "0 \<le> foldl (integrateStep psd lo hi) 0 [1..<length (psd_f psd)]"
    using integrateLoop_nonneg [OF assms, of 0] by blast
  then show ?thesis using False by (simp add: integrateBand_def)
qed

text \<open>
  C2. With non-negative powers, the coherence score lies in \<open>[0, 1]\<close> when the total
  power over \<open>0.04\<close> to \<open>0.4\<close> Hz is positive, and is \<open>0\<close> when the total power is \<open>0\<close>.
  The total power is the value \<open>integrateBand psd LF_LOW_HZ HF_HIGH_HZ\<close> that
  \<open>computeCoherence\<close> binds to \<open>totalPower\<close>.
\<close>

theorem coherenceScore_range:
  assumes "\<forall>x \<in> set (psd_p psd). 0 \<le> x"
  shows "(integrateBand psd LF_LOW_HZ HF_HIGH_HZ > 0 \<longrightarrow>
            0 \<le> coherenceScore (computeCoherence psd targetHz) \<and>
            coherenceScore (computeCoherence psd targetHz) \<le> 1) \<and>
         (integrateBand psd LF_LOW_HZ HF_HIGH_HZ = 0 \<longrightarrow>
            coherenceScore (computeCoherence psd targetHz) = 0)"
proof -
  let ?lo = "max LF_LOW_HZ (targetHz - TARGET_HALF_BAND_HZ)"
  let ?hi = "min HF_HIGH_HZ (targetHz + TARGET_HALF_BAND_HZ)"
  have le: "integrateBand psd ?lo ?hi \<le> integrateBand psd LF_LOW_HZ HF_HIGH_HZ"
    using assms by (intro integrateBand_mono) simp_all
  have ge: "0 \<le> integrateBand psd ?lo ?hi"
    using assms by (rule integrateBand_nonneg)
  show ?thesis
    using le ge by (simp add: computeCoherence_def Let_def)
qed

theorem coherenceScore_range_witness:
  "list_all (\<lambda>x. 0 \<le> x) (psd_p \<lparr>psd_f = [0.05, 0.1, 0.2], psd_p = [1, 2, 1]\<rparr>) \<and>
   integrateBand \<lparr>psd_f = [0.05, 0.1, 0.2], psd_p = [1, 2, 1]\<rparr> LF_LOW_HZ HF_HIGH_HZ > 0 \<and>
   0 \<le> coherenceScore (computeCoherence \<lparr>psd_f = [0.05, 0.1, 0.2], psd_p = [1, 2, 1]\<rparr> 0.03) \<and>
   coherenceScore (computeCoherence \<lparr>psd_f = [0.05, 0.1, 0.2], psd_p = [1, 2, 1]\<rparr> 0.03) \<le> 1"
proof -
  have h: "\<forall>x \<in> set (psd_p \<lparr>psd_f = [0.05, 0.1, 0.2], psd_p = [1, 2, 1]\<rparr>). (0::real) \<le> x"
    by simp
  have pos: "integrateBand \<lparr>psd_f = [0.05, 0.1, 0.2], psd_p = [1, 2, 1]\<rparr> LF_LOW_HZ HF_HIGH_HZ > 0"
    by (simp add: integrateBand_def integrateStep_def upt_rec LF_LOW_HZ_def HF_HIGH_HZ_def)
  have nonneg: "list_all (\<lambda>x. 0 \<le> x) (psd_p \<lparr>psd_f = [0.05, 0.1, 0.2], psd_p = [1, 2, 1::real]\<rparr>)"
    by simp
  show ?thesis
    using nonneg pos coherenceScore_range [OF h, of "0.03"] by blast
qed

section \<open>Signal quality\<close>

lemma median_nonneg:
  assumes "\<forall>x \<in> set xs. 0 \<le> x"
  shows "0 \<le> median xs"
proof (cases "xs = []")
  case True
  then show ?thesis by (simp add: median_def)
next
  case False
  have nth: "0 \<le> sort xs ! i" if "i < length xs" for i
  proof -
    have "sort xs ! i \<in> set (sort xs)" using that by (intro nth_mem) simp
    then show ?thesis using assms by simp
  qed
  have "length xs div 2 < length xs" "length xs div 2 - 1 < length xs"
    using False by (auto simp: length_greater_0_conv [symmetric] simp del: length_greater_0_conv)
  then have "0 \<le> sort xs ! (length xs div 2)" "0 \<le> sort xs ! (length xs div 2 - 1)"
    by (auto intro: nth)
  then show ?thesis using False by (simp add: median_def Let_def)
qed

lemma sq_mad_nonneg: "0 \<le> sq_mad xs"
  unfolding sq_mad_def sq_deviations_def by (rule median_nonneg) simp

text \<open>
  C9 (as the code has it). Over the single window of in-range values, a sample counts as
  an outlier iff its distance from the median exceeds \<open>3 \<times> 1.4826 \<times> MAD\<close> when the
  MAD is positive, and iff it exceeds the fixed fallback \<open>0.18\<close> when the MAD is \<open>0\<close>;
  the MAD is never negative, and \<open>outlierRatio\<close> is the flagged fraction of the window.
\<close>

theorem signalQuality_outlier_rule:
  "(sq_mad inRange > 0 \<longrightarrow>
      outlierCount inRange =
        length (filter (\<lambda>rr. \<bar>rr - median inRange\<bar> > 3 * 1.4826 * sq_mad inRange) inRange)) \<and>
   (sq_mad inRange = 0 \<longrightarrow>
      outlierCount inRange = length (filter (\<lambda>rr. \<bar>rr - median inRange\<bar> > 0.18) inRange)) \<and>
   sq_mad inRange = median (map (\<lambda>rr. \<bar>rr - median inRange\<bar>) inRange) \<and>
   0 \<le> sq_mad inRange \<and>
   (inRange \<noteq> [] \<longrightarrow>
      outlierRatio inRange = real (outlierCount inRange) / real (length inRange))"
  using sq_mad_nonneg [of inRange]
  by (simp add: outlierCount_def sq_threshold_def sq_med_def sq_mad_def sq_deviations_def
      outlierRatio_def)

theorem signalQuality_outlier_rule_witness:
  "sq_mad [0.8, 0.9, 1.0, 1.1, 1.9] > 0 \<and> outlierCount [0.8, 0.9, 1.0, 1.1, 1.9] = 1 \<and>
   sq_mad [0.8, 0.8, 0.8, 0.8, 0.8, 1.5] = 0 \<and> outlierCount [0.8, 0.8, 0.8, 0.8, 0.8, 1.5] = 1 \<and>
   [0.8, 0.8, 0.8, 0.8, 0.8, 1.5::real] \<noteq> [] \<and>
   outlierRatio [0.8, 0.8, 0.8, 0.8, 0.8, 1.5] = 1 / 6"
proof -
  have m1: "median [0.8, 0.9, 1.0, 1.1, 1.9] = 1"
    by (simp add: median_def)
  have a: "sq_mad [0.8, 0.9, 1.0, 1.1, 1.9] = 0.1"
    by (simp add: sq_mad_def sq_deviations_def sq_med_def median_def)
  have m2: "median [0.8, 0.8, 0.8, 0.8, 0.8, 1.5] = 0.8"
    by (simp add: median_def)
  have b: "sq_mad [0.8, 0.8, 0.8, 0.8, 0.8, 1.5] = 0"
    by (simp add: sq_mad_def sq_deviations_def sq_med_def median_def)
  have "outlierCount [0.8, 0.9, 1.0, 1.1, 1.9] =
      length (filter (\<lambda>rr. \<bar>rr - median [0.8, 0.9, 1.0, 1.1, 1.9]\<bar>
                > 3 * 1.4826 * sq_mad [0.8, 0.9, 1.0, 1.1, 1.9]) [0.8, 0.9, 1.0, 1.1, 1.9])"
    using signalQuality_outlier_rule [of "[0.8, 0.9, 1.0, 1.1, 1.9]"] a by simp
  then have c1: "outlierCount [0.8, 0.9, 1.0, 1.1, 1.9] = 1"
    unfolding m1 a by simp
  have "outlierCount [0.8, 0.8, 0.8, 0.8, 0.8, 1.5] =
      length (filter (\<lambda>rr. \<bar>rr - median [0.8, 0.8, 0.8, 0.8, 0.8, 1.5]\<bar> > 0.18)
        [0.8, 0.8, 0.8, 0.8, 0.8, 1.5])"
    using signalQuality_outlier_rule [of "[0.8, 0.8, 0.8, 0.8, 0.8, 1.5]"] b by blast
  then have c2: "outlierCount [0.8, 0.8, 0.8, 0.8, 0.8, 1.5] = 1"
    unfolding m2 by simp
  have "outlierRatio [0.8, 0.8, 0.8, 0.8, 0.8, 1.5]
      = real (outlierCount [0.8, 0.8, 0.8, 0.8, 0.8, 1.5])
        / real (length [0.8, 0.8, 0.8, 0.8, 0.8, 1.5::real])"
    using signalQuality_outlier_rule [of "[0.8, 0.8, 0.8, 0.8, 0.8, 1.5]"] by blast
  then have r: "outlierRatio [0.8, 0.8, 0.8, 0.8, 0.8, 1.5] = 1 / 6"
    unfolding c2 by simp
  show ?thesis
    unfolding a b c1 c2 r by simp
qed

text \<open>
  C9 as the specification words it fails: in the in-range window
  \<open>0.8, 0.8, 0.8, 0.8, 0.8, 1.5\<close> the MAD is \<open>0\<close>, yet \<open>1.5\<close> is flagged (it is more
  than \<open>0.18\<close> from the median) and \<open>outlierRatio\<close> is \<open>1/6\<close>.
\<close>

theorem signalQuality_outlier_counterexample:
  "list_all (\<lambda>rr. 0.3 \<le> rr \<and> rr \<le> 2) [0.8, 0.8, 0.8, 0.8, 0.8, 1.5::real] \<and>
   sq_mad [0.8, 0.8, 0.8, 0.8, 0.8, 1.5] = 0 \<and>
   outlierCount [0.8, 0.8, 0.8, 0.8, 0.8, 1.5] = 1 \<and>
   outlierRatio [0.8, 0.8, 0.8, 0.8, 0.8, 1.5] \<noteq> 0"
  by (simp add: outlierRatio_def outlierCount_def sq_threshold_def sq_mad_def
      sq_deviations_def sq_med_def median_def)

text \<open>The exact definitions of the outlier rule are the case of no rounding.\<close>

lemma median_fl_exact: "median_fl (\<lambda>x. x) values = median values"
  by (simp add: median_fl_def median_def)

lemma outlierRatio_fl_exact: "outlierRatio_fl (\<lambda>x. x) inRange = outlierRatio inRange"
  by (simp add: outlierRatio_fl_def outlierRatio_def outlierCount_fl_def outlierCount_def
      sq_threshold_fl_def sq_threshold_def sq_mad_fl_def sq_mad_def sq_deviations_fl_def
      sq_deviations_def sq_med_fl_def sq_med_def median_fl_exact)







section \<open>Artifact filter\<close>

lemma subseq_map_nth_filter:
  "subseq (map (\<lambda>i. xs ! i) (filter P [0..<length xs])) xs"
proof (induction xs rule: rev_induct)
  case Nil
  then show ?case by simp
next
  case (snoc x xs)
  have eq: "map (\<lambda>i. (xs @ [x]) ! i) (filter P [0..<length xs])
      = map (\<lambda>i. xs ! i) (filter P [0..<length xs])"
    by (rule map_cong) (auto simp: nth_append)
  have last: "subseq (if P (length xs) then [x] else []) [x]"
    by simp
  have full: "map (\<lambda>i. (xs @ [x]) ! i) (filter P [0..<length (xs @ [x])])
      = map (\<lambda>i. xs ! i) (filter P [0..<length xs]) @ (if P (length xs) then [x] else [])"
    using eq by simp
  show ?case
    unfolding full by (rule list_emb_append_mono [OF snoc.IH last])
qed

lemma rangeLoop_length:
  "length (fst (rangeLoop config ts vs)) = length (snd (rangeLoop config ts vs))"
  by (induction config ts vs rule: rangeLoop.induct) auto

lemma rangeLoop_zip:
  "length ts = length vs \<Longrightarrow>
   zip (map Fin (fst (rangeLoop DEFAULT_OPTIONS ts vs))) (map Fin (snd (rangeLoop DEFAULT_OPTIONS ts vs)))
     = filter passesRangeFilter (zip ts vs)"
  by (induction DEFAULT_OPTIONS ts vs rule: rangeLoop.induct)
     (auto simp: DEFAULT_OPTIONS_def)

lemma rangeLoop_values:
  "v \<in> set (snd (rangeLoop config ts vs)) \<Longrightarrow> minRrSec config \<le> v \<and> v \<le> maxRrSec config"
  by (induction config ts vs rule: rangeLoop.induct) (auto split: if_splits)


text \<open>
  C3. For two input arrays of equal length, \<open>cleanRrSeries\<close> returns a series (it does
  not throw) whose samples, as pairs of timestamp and value, form a subsequence of the
  samples that pass the range filter, in their order and with nothing inserted or
  repeated, and every retained value lies in \<open>[0.3, 2.0]\<close>.
\<close>

theorem cleanRrSeries_subsequence:
  assumes "length rrTimes_s = length rr_s"
  shows "\<exists>out. cleanRrSeries rrTimes_s rr_s = Inr out \<and>
           length (cleaned_rrTimes_s out) = length (cleaned_rr_s out) \<and>
           subseq (zip (map Fin (cleaned_rrTimes_s out)) (map Fin (cleaned_rr_s out)))
                  (filter passesRangeFilter (zip rrTimes_s rr_s)) \<and>
           (\<forall>v \<in> set (cleaned_rr_s out). 0.3 \<le> v \<and> v \<le> 2)"
proof -
  define rt where "rt = fst (rangeLoop DEFAULT_OPTIONS rrTimes_s rr_s)"
  define rv where "rv = snd (rangeLoop DEFAULT_OPTIONS rrTimes_s rr_s)"
  define kept where
    "kept = filter (hampelKeep DEFAULT_OPTIONS (windowSize DEFAULT_OPTIONS div 2) rv) [0..<length rv]"
  have len: "length rt = length rv"
    unfolding rt_def rv_def by (rule rangeLoop_length)
  have zip: "zip (map Fin rt) (map Fin rv) = filter passesRangeFilter (zip rrTimes_s rr_s)"
    unfolding rt_def rv_def using assms by (rule rangeLoop_zip)
  have range: "0.3 \<le> v \<and> v \<le> 2" if "v \<in> set rv" for v
    using rangeLoop_values [of v DEFAULT_OPTIONS rrTimes_s rr_s] that
    by (simp add: rv_def DEFAULT_OPTIONS_def)
  show ?thesis
  proof (cases "length rv < 3")
    case True
    then have "cleanRrSeries rrTimes_s rr_s = Inr \<lparr>cleaned_rrTimes_s = rt, cleaned_rr_s = rv\<rparr>"
      using assms by (simp add: cleanRrSeries_def cleanRrSeriesWith_def rt_def rv_def)
    then show ?thesis using len zip range by simp
  next
    case False
    then have out: "cleanRrSeries rrTimes_s rr_s
        = Inr \<lparr>cleaned_rrTimes_s = map (\<lambda>i. rt ! i) kept, cleaned_rr_s = map (\<lambda>i. rv ! i) kept\<rparr>"
      using assms
      by (simp add: cleanRrSeries_def cleanRrSeriesWith_def rt_def rv_def kept_def Let_def)
    have k: "\<forall>k \<in> set kept. k < length rv"
      by (simp add: kept_def)
    have "zip (map Fin (map (\<lambda>i. rt ! i) kept)) (map Fin (map (\<lambda>i. rv ! i) kept))
        = map (\<lambda>i. zip (map Fin rt) (map Fin rv) ! i) kept"
      using k len by (induction kept) auto
    also have "\<dots> = map (\<lambda>i. zip (map Fin rt) (map Fin rv) ! i)
        (filter (hampelKeep DEFAULT_OPTIONS (windowSize DEFAULT_OPTIONS div 2) rv)
           [0..<length (zip (map Fin rt) (map Fin rv))])"
      using len by (simp add: kept_def)
    finally have "subseq (zip (map Fin (map (\<lambda>i. rt ! i) kept)) (map Fin (map (\<lambda>i. rv ! i) kept)))
        (zip (map Fin rt) (map Fin rv))"
      by (simp only: subseq_map_nth_filter)
    moreover have "\<forall>v \<in> set (map (\<lambda>i. rv ! i) kept). 0.3 \<le> v \<and> v \<le> 2"
      using k range by auto
    ultimately show ?thesis
      using out zip by simp
  qed
qed

theorem cleanRrSeries_subsequence_witness:
  "length [Fin 0.8, Fin 1.6, Fin 6.6, Fin 7.4, Fin 8.2, Fin 10, Fin 10.8, PosInf]
     = length [Fin 0.8, Fin 0.81, Fin 5, Fin 0.8, NaN, Fin 1.8, Fin 0.79, Fin 0.8] \<and>
   cleanRrSeries [Fin 0.8, Fin 1.6, Fin 6.6, Fin 7.4, Fin 8.2, Fin 10, Fin 10.8, PosInf]
                 [Fin 0.8, Fin 0.81, Fin 5, Fin 0.8, NaN, Fin 1.8, Fin 0.79, Fin 0.8]
     = Inr \<lparr>cleaned_rrTimes_s = [0.8, 1.6, 7.4, 10.8], cleaned_rr_s = [0.8, 0.81, 0.8, 0.79]\<rparr> \<and>
   subseq [(Fin 0.8, Fin 0.8), (Fin 1.6, Fin 0.81), (Fin 7.4, Fin 0.8), (Fin 10.8, Fin 0.79)]
          [(Fin 0.8, Fin 0.8), (Fin 1.6, Fin 0.81), (Fin 7.4, Fin 0.8), (Fin 10, Fin 1.8),
           (Fin 10.8, Fin 0.79)] \<and>
   list_all (\<lambda>v. 0.3 \<le> v \<and> v \<le> 2) [0.8, 0.81, 0.8, 0.79::real]"
proof -
  let ?ts = "[Fin 0.8, Fin 1.6, Fin 6.6, Fin 7.4, Fin 8.2, Fin 10, Fin 10.8, PosInf]"
  let ?vs = "[Fin 0.8, Fin 0.81, Fin 5, Fin 0.8, NaN, Fin 1.8, Fin 0.79, Fin 0.8]"
  have h: "length ?ts = length ?vs" by simp
  have out: "cleanRrSeries ?ts ?vs
      = Inr \<lparr>cleaned_rrTimes_s = [0.8, 1.6, 7.4, 10.8], cleaned_rr_s = [0.8, 0.81, 0.8, 0.79]\<rparr>"
    by (simp add: cleanRrSeries_def cleanRrSeriesWith_def DEFAULT_OPTIONS_def hampelKeep_def
        localWindow_def median_def upt_rec)
  have f: "filter passesRangeFilter (zip ?ts ?vs)
      = [(Fin 0.8, Fin 0.8), (Fin 1.6, Fin 0.81), (Fin 7.4, Fin 0.8), (Fin 10, Fin 1.8),
           (Fin 10.8, Fin 0.79)]"
    by simp
  show ?thesis
    using cleanRrSeries_subsequence [OF h] unfolding out f by (simp add: list_all_iff)
qed

section \<open>Resampling and the pipeline entry point\<close>

lemma resampleLoop_terminates:
  assumes "0 < dt"
  shows "tEnd - currentTime < real k * dt \<Longrightarrow>
         \<exists>r. resampleLoop rrTimes_s rr_s dt tEnd currentTime state = Some r"
proof (induction k arbitrary: currentTime state)
  case 0
  then have "\<not> currentTime \<le> tEnd" by simp
  then show ?case by (subst resampleLoop.simps) simp
next
  case (Suc k)
  show ?case
  proof (cases "currentTime \<le> tEnd")
    case False
    then show ?thesis by (subst resampleLoop.simps) simp
  next
    case True
    have "tEnd - (currentTime + dt) < real k * dt"
      using Suc.prems by (simp add: algebra_simps)
    then obtain r where "resampleLoop rrTimes_s rr_s dt tEnd (currentTime + dt)
        (resampleStep rrTimes_s rr_s currentTime state) = Some r"
      using Suc.IH by blast
    then show ?thesis using True by (subst resampleLoop.simps) simp
  qed
qed

lemma resampleLoop_total:
  assumes "0 < dt"
  shows "\<exists>r. resampleLoop rrTimes_s rr_s dt tEnd currentTime state = Some r"
proof -
  obtain k :: nat where "(tEnd - currentTime) / dt < real k"
    using reals_Archimedean2 by blast
  then have "tEnd - currentTime < real k * dt"
    using assms by (simp add: pos_divide_less_eq)
  then show ?thesis by (rule resampleLoop_terminates [OF assms])
qed

lemma resampleRrToUniform_total:
  assumes "0 \<le> fs"
  shows "\<exists>r. resampleRrToUniform rrTimes_s rr_s fs = Some r"
proof (cases "fs = 0")
  case True
  then show ?thesis
    by (simp add: resampleRrToUniform_def Let_def split: prod.splits)
next
  case False
  then have "0 < 1 / fs" using assms by simp
  then show ?thesis
    using resampleLoop_total [of "1 / fs" rrTimes_s rr_s]
    apply (simp add: resampleRrToUniform_def Let_def split: prod.splits option.splits)
    by (metis option.distinct(1))
qed

text \<open>
  C10. For two arrays of unequal length, \<open>resampleRrToUniform\<close> returns the empty signal
  with the given \<open>fs\<close>; the function has no failure value at all.
\<close>

theorem resampleRrToUniform_length_mismatch:
  assumes "length rrTimes_s \<noteq> length rr_s"
  shows "resampleRrToUniform rrTimes_s rr_s fs = Some \<lparr>rs_fs = fs, rs_t = [], rs_y = []\<rparr>"
  using assms by (simp add: resampleRrToUniform_def)

theorem resampleRrToUniform_length_mismatch_witness:
  "length [0, 1, 2::real] \<noteq> length [0.8, 0.9::real] \<and>
   resampleRrToUniform [0, 1, 2] [0.8, 0.9] 4 = Some \<lparr>rs_fs = 4, rs_t = [], rs_y = []\<rparr>"
proof -
  have h: "length [0, 1, 2::real] \<noteq> length [0.8, 0.9::real]" by simp
  show ?thesis
    using h resampleRrToUniform_length_mismatch [OF h, of 4] by simp
qed

text \<open>
  C7. For two input arrays of unequal length, \<open>analyze\<close> ends with the exception of
  \<open>cleanRrSeries\<close>, raised by its first statement before any stage of the pipeline has
  run, and the message handler posts exactly one message: the error carrying the
  length-mismatch text. No result message is posted, and the promise of the caller is
  rejected with that text.
\<close>

theorem analyze_length_mismatch:
  assumes "length rrTimes_s \<noteq> length rr_s"
  shows "analyze rrTimes_s rr_s targetHz
           = Some (Inl (Error ''rrTimes_s and rr_s lengths do not match'')) \<and>
         onMessage (AnalyzeMessage \<lparr>payload_rrTimes_s = rrTimes_s, payload_rr_s = rr_s,
                                     payload_targetHz = targetHz\<rparr>)
           = Some [ErrorMessage ''rrTimes_s and rr_s lengths do not match''] \<and>
         analyzeInWorker AnalysisWorker
             \<lparr>payload_rrTimes_s = rrTimes_s, payload_rr_s = rr_s, payload_targetHz = targetHz\<rparr>
           = Some (Inl (Error ''rrTimes_s and rr_s lengths do not match''))"
  using assms
  by (simp add: analyzeInWorker_def onMessage_def analyze_def cleanRrSeries_def
      cleanRrSeriesWith_def)

theorem analyze_length_mismatch_witness:
  "length [Fin 0.8, Fin 1.6] \<noteq> length [Fin 0.8] \<and>
   analyze [Fin 0.8, Fin 1.6] [Fin 0.8] 0.1
     = Some (Inl (Error ''rrTimes_s and rr_s lengths do not match'')) \<and>
   onMessage (AnalyzeMessage \<lparr>payload_rrTimes_s = [Fin 0.8, Fin 1.6], payload_rr_s = [Fin 0.8],
                               payload_targetHz = 0.1\<rparr>)
     = Some [ErrorMessage ''rrTimes_s and rr_s lengths do not match''] \<and>
   analyzeInWorker AnalysisWorker
       \<lparr>payload_rrTimes_s = [Fin 0.8, Fin 1.6], payload_rr_s = [Fin 0.8], payload_targetHz = 0.1\<rparr>
     = Some (Inl (Error ''rrTimes_s and rr_s lengths do not match''))"
proof -
  have h: "length [Fin 0.8, Fin 1.6] \<noteq> length [Fin 0.8]" by simp
  show ?thesis
    using h analyze_length_mismatch [OF h, of "0.1"] by simp
qed

section \<open>Calibration scan\<close>

lemma bestStep_invariant:
  "(foldl bestStep None xs = None \<longleftrightarrow> xs = []) \<and>
   (\<forall>b. foldl bestStep None xs = Some b \<longrightarrow>
      (\<exists>i < length xs. xs ! i = b \<and>
         (\<forall>j < length xs. cp_score (xs ! j) \<le> cp_score b) \<and>
         (\<forall>j < i. cp_score (xs ! j) < cp_score b)))"
proof (induction xs rule: rev_induct)
  case Nil
  then show ?case by simp
next
  case (snoc x xs)
  show ?case
  proof (cases "foldl bestStep None xs")
    case None
    then have "xs = []" using snoc.IH by simp
    then show ?thesis by (simp add: bestStep_def)
  next
    case (Some c)
    then obtain i where i: "i < length xs" "xs ! i = c"
      "\<forall>j < length xs. cp_score (xs ! j) \<le> cp_score c"
      "\<forall>j < i. cp_score (xs ! j) < cp_score c"
      using snoc.IH by blast
    show ?thesis
    proof (cases "cp_score x > cp_score c")
      case True
      then have r: "foldl bestStep None (xs @ [x]) = Some x"
        using Some by (simp add: bestStep_def)
      have "\<forall>j < length (xs @ [x]). cp_score ((xs @ [x]) ! j) \<le> cp_score x"
        using i(3) True by (auto simp: nth_append less_Suc_eq dest: spec [of _ j for j])
      moreover have "\<forall>j < length xs. cp_score ((xs @ [x]) ! j) < cp_score x"
        using i(3) True by (auto simp: nth_append intro: le_less_trans)
      ultimately show ?thesis
        unfolding r by (auto intro!: exI [of _ "length xs"])
    next
      case False
      then have r: "foldl bestStep None (xs @ [x]) = Some c"
        using Some by (simp add: bestStep_def)
      have "\<forall>j < length (xs @ [x]). cp_score ((xs @ [x]) ! j) \<le> cp_score c"
        using i(3) False by (auto simp: nth_append less_Suc_eq)
      moreover have "\<forall>j < i. cp_score ((xs @ [x]) ! j) < cp_score c"
        using i(1,4) by (auto simp: nth_append)
      moreover have "(xs @ [x]) ! i = c" "i < length (xs @ [x])"
        using i(1,2) by (auto simp: nth_append)
      ultimately show ?thesis
        unfolding r by blast
    qed
  qed
qed

text \<open>
  C4. The summary built from a list of scanned points keeps the list, has no \<open>best\<close>
  exactly when the list is empty, and otherwise its \<open>best\<close> is the point at the first
  index that attains the maximal score: no point scores more, and every earlier point
  scores strictly less.
\<close>

theorem best_first_maximum:
  "(best (summaryOf points) = None \<longleftrightarrow> scanned (summaryOf points) = []) \<and>
   scanned (summaryOf points) = points \<and>
   (\<forall>b. best (summaryOf points) = Some b \<longrightarrow>
      (\<exists>i < length points. points ! i = b \<and>
         (\<forall>j < length points. cp_score (points ! j) \<le> cp_score b) \<and>
         (\<forall>j < i. cp_score (points ! j) < cp_score b)))"
  using bestStep_invariant [of points] by (simp add: summaryOf_def)

theorem best_first_maximum_witness:
  "best (summaryOf
     [\<lparr>cp_frequencyHz = 0.07, cp_breathsPerMin = 4.2, cp_score = 0.2,
        cp_peakFrequencyHz = 0.07, cp_peakPower = 1\<rparr>,
      \<lparr>cp_frequencyHz = 0.08, cp_breathsPerMin = 4.8, cp_score = 0.5,
        cp_peakFrequencyHz = 0.08, cp_peakPower = 1\<rparr>,
      \<lparr>cp_frequencyHz = 0.09, cp_breathsPerMin = 5.4, cp_score = 0.5,
        cp_peakFrequencyHz = 0.09, cp_peakPower = 1\<rparr>])
   = Some \<lparr>cp_frequencyHz = 0.08, cp_breathsPerMin = 4.8, cp_score = 0.5,
        cp_peakFrequencyHz = 0.08, cp_peakPower = 1\<rparr> \<and>
   (\<exists>i < 3.
      [\<lparr>cp_frequencyHz = 0.07, cp_breathsPerMin = 4.2, cp_score = 0.2,
         cp_peakFrequencyHz = 0.07, cp_peakPower = 1\<rparr>,
       \<lparr>cp_frequencyHz = 0.08, cp_breathsPerMin = 4.8, cp_score = 0.5,
         cp_peakFrequencyHz = 0.08, cp_peakPower = 1\<rparr>,
       \<lparr>cp_frequencyHz = 0.09, cp_breathsPerMin = 5.4, cp_score = 0.5,
         cp_peakFrequencyHz = 0.09, cp_peakPower = 1\<rparr>] ! i
      = \<lparr>cp_frequencyHz = 0.08, cp_breathsPerMin = 4.8, cp_score = 0.5,
         cp_peakFrequencyHz = 0.08, cp_peakPower = 1\<rparr>) \<and>
   best (summaryOf []) = None"
proof -
  let ?a = "\<lparr>cp_frequencyHz = 0.07, cp_breathsPerMin = 4.2, cp_score = 0.2,
        cp_peakFrequencyHz = 0.07, cp_peakPower = 1\<rparr>"
  let ?b = "\<lparr>cp_frequencyHz = 0.08, cp_breathsPerMin = 4.8, cp_score = 0.5,
        cp_peakFrequencyHz = 0.08, cp_peakPower = 1\<rparr>"
  let ?c = "\<lparr>cp_frequencyHz = 0.09, cp_breathsPerMin = 5.4, cp_score = 0.5,
        cp_peakFrequencyHz = 0.09, cp_peakPower = 1\<rparr>"
  have e: "best (summaryOf [?a, ?b, ?c]) = Some ?b"
    by (simp add: summaryOf_def bestStep_def)
  have "\<exists>i < length [?a, ?b, ?c]. [?a, ?b, ?c] ! i = ?b \<and>
         (\<forall>j < length [?a, ?b, ?c]. cp_score ([?a, ?b, ?c] ! j) \<le> cp_score ?b) \<and>
         (\<forall>j < i. cp_score ([?a, ?b, ?c] ! j) < cp_score ?b)"
    using best_first_maximum [of "[?a, ?b, ?c]"] e by blast
  then have "\<exists>i < 3. [?a, ?b, ?c] ! i = ?b"
    unfolding numeral_3_eq_3 length_Cons list.size by blast
  moreover have "best (summaryOf []) = None"
    using best_first_maximum [of "[]"] by simp
  ultimately show ?thesis using e by blast
qed

lemma cleanRrSeries_returns:
  assumes "length rrTimes_s = length rr_s"
  shows "\<exists>out. cleanRrSeries rrTimes_s rr_s = Inr out"
  using assms by (simp add: cleanRrSeries_def cleanRrSeriesWith_def Let_def)

lemma analyze_returns:
  assumes "length rrTimes_s = length rr_s"
  shows "\<exists>result. analyze rrTimes_s rr_s targetHz = Some (Inr result)"
proof -
  obtain out where out: "cleanRrSeries rrTimes_s rr_s = Inr out"
    using cleanRrSeries_returns [OF assms] by blast
  obtain resampled where
    "resampleRrToUniform (cleaned_rrTimes_s out) (cleaned_rr_s out) 4 = Some resampled"
    using resampleRrToUniform_total [of 4] by auto
  then show ?thesis
    using out by (simp add: analyze_def Let_def)
qed

lemma analyzeInWorker_returns:
  assumes "length (payload_rrTimes_s payload) = length (payload_rr_s payload)"
  shows "\<exists>result. analyzeInWorker AnalysisWorker payload = Some (Inr result)"
proof -
  obtain result where
    "analyze (payload_rrTimes_s payload) (payload_rr_s payload) (payload_targetHz payload)
       = Some (Inr result)"
    using analyze_returns [OF assms] by blast
  then show ?thesis
    by (simp add: analyzeInWorker_def onMessage_def)
qed

lemma calculateCalibrationSegments_lengths:
  assumes "segment \<in> set (calculateCalibrationSegments rrTimes_s rr_s frequenciesHz stepSec)"
  shows "length (seg_rrTimes_s segment) = length (seg_rr_s segment)"
  using assms by (auto simp: calculateCalibrationSegments_def Let_def)

lemma scanSegments_with_worker:
  assumes "\<forall>segment \<in> set segments. length (seg_rrTimes_s segment) = length (seg_rr_s segment)"
  shows "\<exists>points.
           scanSegments AnalysisWorker segments state
             = Some (Inr (fst state @ points),
                     snd state @ map segmentPayload
                                   (filter (\<lambda>segment. \<not> length (seg_rr_s segment) < 16) segments)) \<and>
           length points = length segments \<and>
           (\<forall>i < length segments. length (seg_rr_s (segments ! i)) < 16 \<longrightarrow>
              points ! i = zeroPoint (segments ! i))"
  using assms
proof (induction segments arbitrary: state)
  case Nil
  then show ?case by simp
next
  case (Cons segment rest)
  show ?case
  proof (cases "length (seg_rr_s segment) < 16")
    case True
    obtain points where points:
      "scanSegments AnalysisWorker rest (fst state @ [zeroPoint segment], snd state)
         = Some (Inr ((fst state @ [zeroPoint segment]) @ points),
                 snd state @ map segmentPayload
                               (filter (\<lambda>segment. \<not> length (seg_rr_s segment) < 16) rest))"
      "length points = length rest"
      "\<forall>i < length rest. length (seg_rr_s (rest ! i)) < 16 \<longrightarrow> points ! i = zeroPoint (rest ! i)"
      using Cons.IH [of "(fst state @ [zeroPoint segment], snd state)"] Cons.prems by auto
    have "\<forall>i < length (segment # rest). length (seg_rr_s ((segment # rest) ! i)) < 16 \<longrightarrow>
            (zeroPoint segment # points) ! i = zeroPoint ((segment # rest) ! i)"
      using points(3) by (auto simp: nth_Cons split: nat.splits)
    then show ?thesis
      using True points(1,2) by (intro exI [of _ "zeroPoint segment # points"]) simp
  next
    case False
    have "length (payload_rrTimes_s (segmentPayload segment))
        = length (payload_rr_s (segmentPayload segment))"
      using Cons.prems by (simp add: segmentPayload_def)
    then obtain result where result:
      "analyzeInWorker AnalysisWorker (segmentPayload segment) = Some (Inr result)"
      using analyzeInWorker_returns by blast
    obtain points where points:
      "scanSegments AnalysisWorker rest
         (fst state @ [resultPoint segment result], snd state @ [segmentPayload segment])
         = Some (Inr ((fst state @ [resultPoint segment result]) @ points),
                 (snd state @ [segmentPayload segment]) @ map segmentPayload
                               (filter (\<lambda>segment. \<not> length (seg_rr_s segment) < 16) rest))"
      "length points = length rest"
      "\<forall>i < length rest. length (seg_rr_s (rest ! i)) < 16 \<longrightarrow> points ! i = zeroPoint (rest ! i)"
      using Cons.IH [of "(fst state @ [resultPoint segment result],
                          snd state @ [segmentPayload segment])"] Cons.prems by auto
    have "\<forall>i < length (segment # rest). length (seg_rr_s ((segment # rest) ! i)) < 16 \<longrightarrow>
            (resultPoint segment result # points) ! i = zeroPoint ((segment # rest) ! i)"
      using points(3) False by (auto simp: nth_Cons split: nat.splits)
    then show ?thesis
      using False result points(1,2)
      by (intro exI [of _ "resultPoint segment result # points"]) simp
  qed
qed

lemma scanSegments_no_worker:
  "scanSegments NoWorker segments state =
     (case filter (\<lambda>segment. \<not> length (seg_rr_s segment) < 16) segments of
        [] \<Rightarrow> Some (Inr (fst state @ map zeroPoint segments), snd state)
      | segment # later \<Rightarrow>
          Some (Inl (Error ''analysis worker is not ready''), snd state @ [segmentPayload segment]))"
  by (induction segments arbitrary: state)
     (auto simp: analyzeInWorker_def split: list.splits)


text \<open>
  C5 (as the code has it). With the analysis worker available, the scan over any series,
  list of candidate frequencies and step returns a summary with one point for each
  frequency; the pipeline is requested for exactly the segments with at least 16 samples,
  in order, and a segment with fewer than 16 samples yields the point with score, peak
  frequency and peak power \<open>0\<close>. With no worker available the scan still returns a
  summary of zero points when every segment has fewer than 16 samples, and otherwise ends
  with the error \<open>analysis worker is not ready\<close> at the first segment that needs the
  pipeline.
\<close>

theorem scanCalibration_returns:
  "(\<exists>summary.
      scanCalibration AnalysisWorker rrTimes_s rr_s frequenciesHz stepSec
        = Some (Inr summary,
                map segmentPayload
                  (filter (\<lambda>segment. \<not> length (seg_rr_s segment) < 16)
                     (calculateCalibrationSegments rrTimes_s rr_s frequenciesHz stepSec))) \<and>
      length (scanned summary) = length frequenciesHz \<and>
      (\<forall>i < length frequenciesHz.
         length (seg_rr_s (calculateCalibrationSegments rrTimes_s rr_s frequenciesHz stepSec ! i)) < 16
         \<longrightarrow> scanned summary ! i
               = \<lparr>cp_frequencyHz = frequenciesHz ! i, cp_breathsPerMin = frequenciesHz ! i * 60,
                  cp_score = 0, cp_peakFrequencyHz = 0, cp_peakPower = 0\<rparr>)) \<and>
   scanCalibration NoWorker rrTimes_s rr_s frequenciesHz stepSec
     = (case filter (\<lambda>segment. \<not> length (seg_rr_s segment) < 16)
               (calculateCalibrationSegments rrTimes_s rr_s frequenciesHz stepSec) of
          [] \<Rightarrow> Some (Inr (summaryOf
                    (map zeroPoint
                       (calculateCalibrationSegments rrTimes_s rr_s frequenciesHz stepSec))), [])
        | segment # later \<Rightarrow>
            Some (Inl (Error ''analysis worker is not ready''), [segmentPayload segment]))"
proof -
  define segments where
    "segments = calculateCalibrationSegments rrTimes_s rr_s frequenciesHz stepSec"
  have len: "length segments = length frequenciesHz"
    by (simp add: segments_def calculateCalibrationSegments_def)
  have freq: "seg_frequencyHz (segments ! i) = frequenciesHz ! i" if "i < length frequenciesHz" for i
    using that by (simp add: segments_def calculateCalibrationSegments_def Let_def)
  have "\<forall>segment \<in> set segments. length (seg_rrTimes_s segment) = length (seg_rr_s segment)"
    unfolding segments_def by (blast intro: calculateCalibrationSegments_lengths)
  then obtain points where points:
    "scanSegments AnalysisWorker segments ([], [])
       = Some (Inr points,
               map segmentPayload (filter (\<lambda>segment. \<not> length (seg_rr_s segment) < 16) segments))"
    "length points = length segments"
    "\<forall>i < length segments. length (seg_rr_s (segments ! i)) < 16 \<longrightarrow>
       points ! i = zeroPoint (segments ! i)"
    using scanSegments_with_worker [of segments "([], [])"] by auto
  have zero: "\<forall>i < length frequenciesHz. length (seg_rr_s (segments ! i)) < 16 \<longrightarrow>
      scanned (summaryOf points) ! i
        = \<lparr>cp_frequencyHz = frequenciesHz ! i, cp_breathsPerMin = frequenciesHz ! i * 60,
           cp_score = 0, cp_peakFrequencyHz = 0, cp_peakPower = 0\<rparr>"
    using points(3) len freq by (simp add: summaryOf_def zeroPoint_def)
  have with_worker: "scanCalibration AnalysisWorker rrTimes_s rr_s frequenciesHz stepSec
      = Some (Inr (summaryOf points),
              map segmentPayload (filter (\<lambda>segment. \<not> length (seg_rr_s segment) < 16) segments))"
    using points(1) by (simp add: scanCalibration_def segments_def)
  have "length (scanned (summaryOf points)) = length frequenciesHz"
    using points(2) len by (simp add: summaryOf_def)
  then have first: "\<exists>summary.
      scanCalibration AnalysisWorker rrTimes_s rr_s frequenciesHz stepSec
        = Some (Inr summary,
                map segmentPayload (filter (\<lambda>segment. \<not> length (seg_rr_s segment) < 16) segments)) \<and>
      length (scanned summary) = length frequenciesHz \<and>
      (\<forall>i < length frequenciesHz. length (seg_rr_s (segments ! i)) < 16
         \<longrightarrow> scanned summary ! i
               = \<lparr>cp_frequencyHz = frequenciesHz ! i, cp_breathsPerMin = frequenciesHz ! i * 60,
                  cp_score = 0, cp_peakFrequencyHz = 0, cp_peakPower = 0\<rparr>)"
    using with_worker zero by blast
  have second: "scanCalibration NoWorker rrTimes_s rr_s frequenciesHz stepSec
     = (case filter (\<lambda>segment. \<not> length (seg_rr_s segment) < 16) segments of
          [] \<Rightarrow> Some (Inr (summaryOf (map zeroPoint segments)), [])
        | segment # later \<Rightarrow>
            Some (Inl (Error ''analysis worker is not ready''), [segmentPayload segment]))"
    unfolding scanCalibration_def segments_def [symmetric]
    by (simp add: scanSegments_no_worker split: list.splits)
  show ?thesis
    using first second unfolding segments_def by blast
qed

theorem scanCalibration_returns_witness:
  "\<exists>summary.
     scanCalibration AnalysisWorker
       [Fin 1.2, Fin 2.4, Fin 3.6, Fin 4.8, Fin 6, Fin 7.2, Fin 8.4, Fin 9.6, Fin 10.8,
        Fin 12, Fin 13.2, Fin 14.4, Fin 15.6, Fin 16.8, Fin 18, Fin 19.2, Fin 21.2, Fin
        23.2, Fin 25.2, Fin 27.2, Fin 29.2, Fin 31.2, Fin 33.2, Fin 35.2, Fin 37.2, Fin
        39.2]
       [Fin 1.2, Fin 1.2, Fin 1.2, Fin 1.2, Fin 1.2, Fin 1.2, Fin 1.2, Fin 1.2, Fin 1.2,
        Fin 1.2, Fin 1.2, Fin 1.2, Fin 1.2, Fin 1.2, Fin 1.2, Fin 1.2, Fin 2, Fin 2, Fin
        2, Fin 2, Fin 2, Fin 2, Fin 2, Fin 2, Fin 2, Fin 2]
       [0.07, 0.08] 20
     = Some (Inr summary,
             [\<lparr>payload_rrTimes_s =
                 [Fin 1.2, Fin 2.4, Fin 3.6, Fin 4.8, Fin 6, Fin 7.2, Fin 8.4, Fin 9.6,
                  Fin 10.8, Fin 12, Fin 13.2, Fin 14.4, Fin 15.6, Fin 16.8, Fin 18, Fin
                  19.2],
               payload_rr_s =
                 [Fin 1.2, Fin 1.2, Fin 1.2, Fin 1.2, Fin 1.2, Fin 1.2, Fin 1.2, Fin 1.2,
                  Fin 1.2, Fin 1.2, Fin 1.2, Fin 1.2, Fin 1.2, Fin 1.2, Fin 1.2, Fin 1.2],
               payload_targetHz = 0.07\<rparr>]) \<and>
     scanned summary ! 1
       = \<lparr>cp_frequencyHz = 0.08, cp_breathsPerMin = 0.08 * 60,
          cp_score = 0, cp_peakFrequencyHz = 0, cp_peakPower = 0\<rparr>"
proof -
  let ?ts = "[Fin 1.2, Fin 2.4, Fin 3.6, Fin 4.8, Fin 6, Fin 7.2, Fin 8.4, Fin 9.6, Fin 10.8, Fin
              12, Fin 13.2, Fin 14.4, Fin 15.6, Fin 16.8, Fin 18, Fin 19.2, Fin 21.2, Fin 23.2, Fin
              25.2, Fin 27.2, Fin 29.2, Fin 31.2, Fin 33.2, Fin 35.2, Fin 37.2, Fin 39.2]"
  let ?vs = "[Fin 1.2, Fin 1.2, Fin 1.2, Fin 1.2, Fin 1.2, Fin 1.2, Fin 1.2, Fin 1.2, Fin 1.2, Fin
              1.2, Fin 1.2, Fin 1.2, Fin 1.2, Fin 1.2, Fin 1.2, Fin 1.2, Fin 2, Fin 2, Fin 2, Fin 2,
              Fin 2, Fin 2, Fin 2, Fin 2, Fin 2, Fin 2]"
  have segments: "calculateCalibrationSegments ?ts ?vs [0.07, 0.08] 20
      = [\<lparr>seg_frequencyHz = 0.07,
          seg_rrTimes_s =
            [Fin 1.2, Fin 2.4, Fin 3.6, Fin 4.8, Fin 6, Fin 7.2, Fin 8.4, Fin 9.6, Fin
             10.8, Fin 12, Fin 13.2, Fin 14.4, Fin 15.6, Fin 16.8, Fin 18, Fin 19.2],
          seg_rr_s =
            [Fin 1.2, Fin 1.2, Fin 1.2, Fin 1.2, Fin 1.2, Fin 1.2, Fin 1.2, Fin 1.2, Fin
             1.2, Fin 1.2, Fin 1.2, Fin 1.2, Fin 1.2, Fin 1.2, Fin 1.2, Fin 1.2]\<rparr>,
         \<lparr>seg_frequencyHz = 0.08,
          seg_rrTimes_s =
            [Fin 21.2, Fin 23.2, Fin 25.2, Fin 27.2, Fin 29.2, Fin 31.2, Fin 33.2, Fin 35.2,
             Fin 37.2, Fin 39.2],
          seg_rr_s = [Fin 2, Fin 2, Fin 2, Fin 2, Fin 2, Fin 2, Fin 2, Fin 2, Fin 2, Fin 2]\<rparr>]"
    by (simp add: calculateCalibrationSegments_def inSegment_def)
  have short: "length (seg_rr_s (calculateCalibrationSegments ?ts ?vs [0.07, 0.08] 20 ! 1)) < 16"
    unfolding segments by simp
  obtain summary where summary:
    "scanCalibration AnalysisWorker ?ts ?vs [0.07, 0.08] 20
       = Some (Inr summary,
               map segmentPayload
                 (filter (\<lambda>segment. \<not> length (seg_rr_s segment) < 16)
                    (calculateCalibrationSegments ?ts ?vs [0.07, 0.08] 20)))"
    "\<forall>i < length [0.07, 0.08::real].
       length (seg_rr_s (calculateCalibrationSegments ?ts ?vs [0.07, 0.08] 20 ! i)) < 16
       \<longrightarrow> scanned summary ! i
             = \<lparr>cp_frequencyHz = [0.07, 0.08] ! i, cp_breathsPerMin = [0.07, 0.08] ! i * 60,
                cp_score = 0, cp_peakFrequencyHz = 0, cp_peakPower = 0\<rparr>"
    using scanCalibration_returns [of ?ts ?vs "[0.07, 0.08]" 20] by blast
  have "scanned summary ! 1
      = \<lparr>cp_frequencyHz = [0.07, 0.08] ! 1, cp_breathsPerMin = [0.07, 0.08] ! 1 * 60,
         cp_score = 0, cp_peakFrequencyHz = 0, cp_peakPower = 0\<rparr>"
    using summary(2) short by simp
  then have zero: "scanned summary ! 1
      = \<lparr>cp_frequencyHz = 0.08, cp_breathsPerMin = 0.08 * 60,
         cp_score = 0, cp_peakFrequencyHz = 0, cp_peakPower = 0\<rparr>"
    by simp
  have calls: "map segmentPayload
      (filter (\<lambda>segment. \<not> length (seg_rr_s segment) < 16)
         (calculateCalibrationSegments ?ts ?vs [0.07, 0.08] 20))
      = [\<lparr>payload_rrTimes_s =
            [Fin 1.2, Fin 2.4, Fin 3.6, Fin 4.8, Fin 6, Fin 7.2, Fin 8.4, Fin 9.6, Fin
             10.8, Fin 12, Fin 13.2, Fin 14.4, Fin 15.6, Fin 16.8, Fin 18, Fin 19.2],
          payload_rr_s =
            [Fin 1.2, Fin 1.2, Fin 1.2, Fin 1.2, Fin 1.2, Fin 1.2, Fin 1.2, Fin 1.2, Fin
             1.2, Fin 1.2, Fin 1.2, Fin 1.2, Fin 1.2, Fin 1.2, Fin 1.2, Fin 1.2],
          payload_targetHz = 0.07\<rparr>]"
    unfolding segments by (simp add: segmentPayload_def)
  show ?thesis
    using summary(1) zero unfolding calls by blast
qed

text \<open>
  C5 as the specification words it fails: with no worker available, a series whose first
  segment holds 16 samples makes the scan end with the error of \<open>analyzeInWorker\<close>.
\<close>

theorem performCalibrationSummary_counterexample:
  "performCalibrationSummary NoWorker
     [Fin 1.2, Fin 2.4, Fin 3.6, Fin 4.8, Fin 6, Fin 7.2, Fin 8.4, Fin 9.6, Fin 10.8, Fin
      12, Fin 13.2, Fin 14.4, Fin 15.6, Fin 16.8, Fin 18, Fin 19.2]
     [Fin 1.2, Fin 1.2, Fin 1.2, Fin 1.2, Fin 1.2, Fin 1.2, Fin 1.2, Fin 1.2, Fin 1.2,
      Fin 1.2, Fin 1.2, Fin 1.2, Fin 1.2, Fin 1.2, Fin 1.2, Fin 1.2]
   = Some (Inl (Error ''analysis worker is not ready''),
           [\<lparr>payload_rrTimes_s =
               [Fin 1.2, Fin 2.4, Fin 3.6, Fin 4.8, Fin 6, Fin 7.2, Fin 8.4, Fin 9.6, Fin
                10.8, Fin 12, Fin 13.2, Fin 14.4, Fin 15.6, Fin 16.8, Fin 18, Fin 19.2],
             payload_rr_s =
               [Fin 1.2, Fin 1.2, Fin 1.2, Fin 1.2, Fin 1.2, Fin 1.2, Fin 1.2, Fin 1.2,
                Fin 1.2, Fin 1.2, Fin 1.2, Fin 1.2, Fin 1.2, Fin 1.2, Fin 1.2, Fin 1.2],
             payload_targetHz = 0.07\<rparr>])"
  by (simp add: performCalibrationSummary_def scanCalibration_def
      calculateCalibrationSegments_def CALIBRATION_FREQUENCIES_HZ_def CALIBRATION_STEP_SEC_def
      inSegment_def analyzeInWorker_def segmentPayload_def zeroPoint_def)

section \<open>Welch spectral estimate\<close>

lemma highestPowerOfTwo_bounds:
  assumes "1 \<le> v"
  shows "\<exists>e. highestPowerOfTwo v = 2 ^ e \<and> 2 ^ e \<le> v \<and> v < 2 ^ (e + 1)"
proof -
  define e where "e = nat \<lfloor>log 2 (real v)\<rfloor>"
  have "0 \<le> log 2 (real v)" using assms by simp
  then have "\<lfloor>log (real 2) (real v)\<rfloor> = int e"
    by (simp add: e_def)
  then have "2 ^ e \<le> v \<and> v < 2 ^ (e + 1)"
    using floor_log_nat_eq_powr_iff [of 2 v e] assms by simp
  moreover have "highestPowerOfTwo v = 2 ^ e"
    using assms by (simp add: highestPowerOfTwo_def e_def)
  ultimately show ?thesis by blast
qed

lemma highestPowerOfTwo_largest:
  assumes "(2::nat) ^ e \<le> v"
  shows "2 ^ e \<le> highestPowerOfTwo v"
proof -
  have "1 \<le> v" using assms by (metis one_le_numeral one_le_power order_trans)
  then obtain d where d: "highestPowerOfTwo v = 2 ^ d" "v < 2 ^ (d + 1)"
    using highestPowerOfTwo_bounds by blast
  have "(2::nat) ^ e < 2 ^ (d + 1)" using assms d(2) by simp
  then have "e < d + 1" by (rule power_less_imp_less_exp [rotated]) simp
  then have "(2::nat) ^ e \<le> 2 ^ d" by (simp add: power_increasing)
  then show ?thesis using d(1) by simp
qed

lemma highestPowerOfTwo_le: "highestPowerOfTwo v \<le> v"
proof (cases "1 \<le> v")
  case True
  then show ?thesis using highestPowerOfTwo_bounds by fastforce
next
  case False
  then show ?thesis by (simp add: highestPowerOfTwo_def)
qed

lemma highestPowerOfTwo_unique:
  assumes "L = 2 ^ e" "L \<le> v" "\<forall>d. (2::nat) ^ d \<le> v \<longrightarrow> 2 ^ d \<le> L"
  shows "highestPowerOfTwo v = L"
proof -
  have "1 \<le> v" using assms(1,2) by (metis one_le_numeral one_le_power order_trans)
  then obtain d where d: "highestPowerOfTwo v = 2 ^ d" "2 ^ d \<le> v"
    using highestPowerOfTwo_bounds by blast
  have "highestPowerOfTwo v \<le> L" using assms(3) d by simp
  moreover have "L \<le> highestPowerOfTwo v"
    using highestPowerOfTwo_largest assms(1,2) by blast
  ultimately show ?thesis by simp
qed

lemma usable_small_iff:
  "highestPowerOfTwo v < 16 \<longleftrightarrow> (\<forall>e. (2::nat) ^ e \<le> v \<longrightarrow> (2::nat) ^ e < 16)"
proof
  assume "highestPowerOfTwo v < 16"
  then show "\<forall>e. (2::nat) ^ e \<le> v \<longrightarrow> (2::nat) ^ e < 16"
    using highestPowerOfTwo_largest [of _ v] by (meson le_less_trans)
next
  assume a: "\<forall>e. (2::nat) ^ e \<le> v \<longrightarrow> (2::nat) ^ e < 16"
  show "highestPowerOfTwo v < 16"
  proof (cases "1 \<le> v")
    case True
    then obtain e where "highestPowerOfTwo v = 2 ^ e" "2 ^ e \<le> v"
      using highestPowerOfTwo_bounds by blast
    then show ?thesis using a by simp
  next
    case False
    then show ?thesis by (simp add: highestPowerOfTwo_def)
  qed
qed

lemma welchLoop_sum:
  assumes "usableLength \<le> length signal" "length acc = usableLength div 2 + 1"
  shows "j \<le> (length signal - usableLength) div welchStep usableLength overlap + 1 \<Longrightarrow>
         welchLoop signal fs usableLength overlap (j * welchStep usableLength overlap) (acc, cnt)
       = (map (\<lambda>k. acc ! k
                   + (\<Sum>i = j..<(length signal - usableLength) div welchStep usableLength overlap + 1.
                        segmentPower signal fs usableLength (i * welchStep usableLength overlap) k))
              [0..<usableLength div 2 + 1],
          cnt + ((length signal - usableLength) div welchStep usableLength overlap + 1 - j))"
  using assms(2)
proof (induction "(length signal - usableLength) div welchStep usableLength overlap + 1 - j"
    arbitrary: j acc cnt)
  case 0
  define step where "step = welchStep usableLength overlap"
  define K where "K = (length signal - usableLength) div step + 1"
  have step: "0 < step" by (simp add: step_def welchStep_def)
  have "j = K" using 0 by (simp add: K_def step_def)
  have "length signal - usableLength < K * step"
    using step by (simp add: K_def) (metis div_mult_mod_eq add.commute add_less_cancel_left mod_less_divisor mult.commute)
  then have "\<not> j * step + usableLength \<le> length signal"
    using \<open>j = K\<close> by simp
  then have "welchLoop signal fs usableLength overlap (j * step) (acc, cnt) = (acc, cnt)"
    by (subst welchLoop.simps) (simp add: step_def)
  moreover have "map (\<lambda>k. acc ! k + 0) [0..<usableLength div 2 + 1] = acc"
    using map_nth [of acc] "0.prems" by (simp del: map_nth upt_Suc)
  ultimately show ?case
    using \<open>j = K\<close> by (simp add: K_def step_def del: upt_Suc)
next
  case (Suc m)
  define step where "step = welchStep usableLength overlap"
  define K where "K = (length signal - usableLength) div step + 1"
  define acc' where "acc' = map (\<lambda>k. acc ! k + segmentPower signal fs usableLength (j * step) k)
                  [0..<usableLength div 2 + 1]"
  have "j < K" using Suc.hyps(2) by (simp add: K_def step_def)
  then have "j * step \<le> (length signal - usableLength) div step * step"
    by (simp add: K_def)
  also have "\<dots> \<le> length signal - usableLength"
    by simp
  finally have fits: "j * step + usableLength \<le> length signal"
    using assms(1) by simp
  have unfold: "welchLoop signal fs usableLength overlap (j * step) (acc, cnt)
      = welchLoop signal fs usableLength overlap (Suc j * step) (acc', cnt + 1)"
    using fits by (subst welchLoop.simps) (simp add: step_def acc'_def add.commute)
  have "m = K - Suc j" using Suc.hyps(2) by (simp add: K_def step_def)
  moreover have "Suc j \<le> K" using \<open>j < K\<close> by simp
  moreover have "length acc' = usableLength div 2 + 1" by (simp add: acc'_def)
  ultimately have IH: "welchLoop signal fs usableLength overlap (Suc j * step) (acc', cnt + 1)
      = (map (\<lambda>k. acc' ! k + (\<Sum>i = Suc j..<K. segmentPower signal fs usableLength (i * step) k))
              [0..<usableLength div 2 + 1],
          cnt + 1 + (K - Suc j))"
    using Suc.hyps(1) [of "Suc j" acc' "cnt + 1"] by (simp add: K_def step_def)
  have "map (\<lambda>k. acc' ! k + (\<Sum>i = Suc j..<K. segmentPower signal fs usableLength (i * step) k))
              [0..<usableLength div 2 + 1]
      = map (\<lambda>k. acc ! k + (\<Sum>i = j..<K. segmentPower signal fs usableLength (i * step) k))
              [0..<usableLength div 2 + 1]"
  proof (rule map_cong [OF refl])
    fix k assume "k \<in> set [0..<usableLength div 2 + 1]"
    then have "acc' ! k = acc ! k + segmentPower signal fs usableLength (j * step) k"
      unfolding acc'_def by (simp del: upt_Suc)
    then show "acc' ! k + (\<Sum>i = Suc j..<K. segmentPower signal fs usableLength (i * step) k)
        = acc ! k + (\<Sum>i = j..<K. segmentPower signal fs usableLength (i * step) k)"
      using \<open>j < K\<close> by (simp add: sum.atLeast_Suc_lessThan)
  qed
  moreover have "cnt + 1 + (K - Suc j) = cnt + (K - j)"
    using \<open>j < K\<close> by simp
  ultimately show ?case
    using unfold IH by (simp add: K_def step_def del: upt_Suc)
qed


lemma welchStep_half:
  assumes "even usableLength" "2 \<le> usableLength"
  shows "welchStep usableLength 0.5 = usableLength div 2"
proof -
  obtain h where h: "usableLength = 2 * h" using assms(1) by (elim evenE)
  have "real usableLength * (1 - 0.5) = real h" by (simp add: h)
  then have "nat \<lfloor>real usableLength * (1 - 0.5)\<rfloor> = h" by simp
  moreover have "1 \<le> h" using assms(2) h by simp
  ultimately show ?thesis by (simp add: welchStep_def h)
qed

lemma fullSegments_eq:
  fixes n usableLength step :: nat
  assumes "usableLength \<le> n" "0 < step"
  shows "{j. j * step + usableLength \<le> n} = {..<(n - usableLength) div step + 1}"
proof -
  have "j * step + usableLength \<le> n \<longleftrightarrow> j < (n - usableLength) div step + 1" for j
  proof -
    have "j * step + usableLength \<le> n \<longleftrightarrow> j * step \<le> n - usableLength"
      using assms(1) by (simp add: le_diff_conv2)
    also have "\<dots> \<longleftrightarrow> j \<le> (n - usableLength) div step"
      using assms(2) by (simp add: less_eq_div_iff_mult_less_eq)
    finally show ?thesis by auto
  qed
  then show ?thesis by auto
qed

lemma welchPsd_nonempty:
  assumes L: "L = highestPowerOfTwo (min 256 (length signal))" and big: "16 \<le> L"
  shows "welchPsd signal fs =
      \<lparr>psd_f = map (\<lambda>k. (real k * fs) / real L) [0..<L div 2 + 1],
       psd_p = map (\<lambda>k.
                 if k > 0 \<and> k < L div 2
                 then (\<Sum>j \<in> {j. j * (L div 2) + L \<le> length signal}.
                         segmentPower signal fs L (j * (L div 2)) k)
                      / real (card {j. j * (L div 2) + L \<le> length signal}) * 2
                 else (\<Sum>j \<in> {j. j * (L div 2) + L \<le> length signal}.
                         segmentPower signal fs L (j * (L div 2)) k)
                      / real (card {j. j * (L div 2) + L \<le> length signal}))
               [0..<L div 2 + 1]\<rparr>"
proof -
  have le: "L \<le> length signal"
    using highestPowerOfTwo_le [of "min 256 (length signal)"] L by simp
  have "1 \<le> min 256 (length signal)"
    using big le by simp
  then obtain e where e: "L = 2 ^ e"
    using highestPowerOfTwo_bounds L by blast
  have "e \<noteq> 0" using big e by (cases e) simp_all
  then have "even L" using e by simp
  then have step: "welchStep L 0.5 = L div 2"
    using big by (intro welchStep_half) simp_all
  have pos: "0 < L div 2" using big by simp
  define K where "K = (length signal - L) div (L div 2) + 1"
  have S: "{j. j * (L div 2) + L \<le> length signal} = {..<K}"
    unfolding K_def using le pos by (rule fullSegments_eq)
  have "0 \<le> (length signal - L) div welchStep L 0.5 + 1" by simp
  then have "welchLoop signal fs L 0.5 (0 * welchStep L 0.5) (replicate (L div 2 + 1) 0, 0)
      = (map (\<lambda>k. replicate (L div 2 + 1) 0 ! k
                   + (\<Sum>i = 0..<(length signal - L) div welchStep L 0.5 + 1.
                        segmentPower signal fs L (i * welchStep L 0.5) k))
              [0..<L div 2 + 1],
          0 + ((length signal - L) div welchStep L 0.5 + 1 - 0))"
    by (intro welchLoop_sum le) simp_all
  then have loop: "welchLoop signal fs L 0.5 0 (replicate (L div 2 + 1) 0, 0)
      = (map (\<lambda>k. replicate (L div 2 + 1) 0 ! k
                   + (\<Sum>i = 0..<K. segmentPower signal fs L (i * (L div 2)) k))
              [0..<L div 2 + 1], K)"
    unfolding step K_def by simp
  have acc: "map (\<lambda>k. replicate (L div 2 + 1) 0 ! k
                   + (\<Sum>i = 0..<K. segmentPower signal fs L (i * (L div 2)) k))
              [0..<L div 2 + 1]
      = map (\<lambda>k. \<Sum>i<K. segmentPower signal fs L (i * (L div 2)) k) [0..<L div 2 + 1]"
    by (rule map_cong [OF refl]) (simp add: atLeast0LessThan del: upt_Suc replicate_Suc)
  have K: "K \<noteq> 0" by (simp add: K_def)
  define acc where
    "acc = map (\<lambda>k. \<Sum>i<K. segmentPower signal fs L (i * (L div 2)) k) [0..<L div 2 + 1]"
  have p: "map (\<lambda>k. if k > 0 \<and> k < L div 2 + 1 - 1 then acc ! k / real K * 2
                     else acc ! k / real K) [0..<L div 2 + 1]
      = map (\<lambda>k. if k > 0 \<and> k < L div 2
                 then (\<Sum>i<K. segmentPower signal fs L (i * (L div 2)) k) / real K * 2
                 else (\<Sum>i<K. segmentPower signal fs L (i * (L div 2)) k) / real K)
             [0..<L div 2 + 1]"
    by (rule map_cong [OF refl]) (simp add: acc_def del: upt_Suc)
  have final: "welchLoop signal fs L 0.5 0 (replicate (L div 2 + 1) 0, 0) = (acc, K)"
    unfolding loop acc acc_def by simp
  have "welchPsd signal fs =
      \<lparr>psd_f = map (\<lambda>k. (real k * fs) / real L) [0..<L div 2 + 1],
       psd_p = map (\<lambda>k. if k > 0 \<and> k < L div 2 + 1 - 1 then acc ! k / real K * 2
                     else acc ! k / real K) [0..<L div 2 + 1]\<rparr>"
    unfolding welchPsd_def welchPsdWith_def L [symmetric] Let_def final fst_conv snd_conv
    using big K by (simp del: upt_Suc)
  then show ?thesis
    unfolding S p by simp
qed


lemma foldl_squares:
  "foldl (\<lambda>sum v. sum + v * v) a xs = a + sum_list (map (\<lambda>v. v * v) xs)" for a :: real
  by (induction xs arbitrary: a) simp_all

lemma windowPower_pos:
  assumes "16 \<le> usableLength"
  shows "0 < windowPower usableLength"
proof -
  define w where "w = (\<lambda>i. 0.5 * (1 - cos ((2 * pi * real i) / (real usableLength - 1))))"
  have "windowPower usableLength = sum_list (map (\<lambda>i. w i * w i) [0..<usableLength])"
    by (simp add: windowPower_def hannWindow_def foldl_squares w_def comp_def)
  also have "\<dots> = (\<Sum>i \<in> {0..<usableLength}. w i * w i)"
    by (simp add: interv_sum_list_conv_sum_set_nat)
  finally have eq: "windowPower usableLength = (\<Sum>i \<in> {0..<usableLength}. w i * w i)" .
  have "0 < 2 * pi / (real usableLength - 1)"
    using assms by simp
  moreover have "2 * pi / (real usableLength - 1) \<le> pi"
    using assms by (simp add: field_simps)
  ultimately have "cos (2 * pi / (real usableLength - 1)) < cos 0"
    by (intro cos_monotone_0_pi) simp_all
  then have "0 < w 1" by (simp add: w_def)
  then have "0 < w 1 * w 1" by simp
  moreover have "1 \<in> {0..<usableLength}" using assms by simp
  ultimately have "0 < (\<Sum>i \<in> {0..<usableLength}. w i * w i)"
    by (intro sum_pos2 [of _ 1]) simp_all
  then show ?thesis using eq by simp
qed

text \<open>
  C6. For \<open>fs > 0\<close>, \<open>welchPsd\<close> returns the empty spectrum exactly when every power of
  two that is at most \<open>min(256, signal length)\<close> is below 16. Otherwise, with \<open>L\<close> the
  largest power of two that is at most \<open>min(256, signal length)\<close>, it returns
  \<open>L / 2 + 1\<close> bins; bin \<open>k\<close> has frequency \<open>k \<times> fs / L\<close>, and its power is the mean,
  over all full segments (those that begin at a multiple \<open>j \<times> L / 2\<close> of the step and
  end within the signal, of which there is at least one), of the power the segment has in
  the bin, doubled for every bin other than the first and the last. The divisor
  \<open>fs \<times> windowPower\<close> of a segment's power is positive.
\<close>

theorem welchPsd_bins:
  assumes "0 < fs"
  shows "(welchPsd signal fs = \<lparr>psd_f = [], psd_p = []\<rparr> \<longleftrightarrow>
            (\<forall>e. (2::nat) ^ e \<le> min 256 (length signal) \<longrightarrow> (2::nat) ^ e < 16)) \<and>
         (\<forall>L. (\<exists>e. L = 2 ^ e) \<and> L \<le> min 256 (length signal) \<and>
               (\<forall>e. (2::nat) ^ e \<le> min 256 (length signal) \<longrightarrow> 2 ^ e \<le> L) \<and> 16 \<le> L \<longrightarrow>
            length (psd_f (welchPsd signal fs)) = L div 2 + 1 \<and>
            length (psd_p (welchPsd signal fs)) = L div 2 + 1 \<and>
            0 < fs * windowPower L \<and>
            0 < card {j. j * (L div 2) + L \<le> length signal} \<and>
            (\<forall>k < L div 2 + 1.
               psd_f (welchPsd signal fs) ! k = real k * fs / real L \<and>
               psd_p (welchPsd signal fs) ! k =
                 (\<Sum>j \<in> {j. j * (L div 2) + L \<le> length signal}.
                    (if 0 < k \<and> k < L div 2
                     then 2 * segmentPower signal fs L (j * (L div 2)) k
                     else segmentPower signal fs L (j * (L div 2)) k))
                 / real (card {j. j * (L div 2) + L \<le> length signal})))"
proof (intro conjI allI impI)
  show "welchPsd signal fs = \<lparr>psd_f = [], psd_p = []\<rparr> \<longleftrightarrow>
      (\<forall>e. (2::nat) ^ e \<le> min 256 (length signal) \<longrightarrow> (2::nat) ^ e < 16)"
  proof (cases "highestPowerOfTwo (min 256 (length signal)) < 16")
    case True
    then have "welchPsd signal fs = \<lparr>psd_f = [], psd_p = []\<rparr>"
      by (simp add: welchPsd_def welchPsdWith_def)
    then show ?thesis using True usable_small_iff by blast
  next
    case False
    then have "psd_f (welchPsd signal fs) \<noteq> []"
      using welchPsd_nonempty [OF refl, of signal fs] by simp
    then have "welchPsd signal fs \<noteq> \<lparr>psd_f = [], psd_p = []\<rparr>"
      by auto
    then show ?thesis using False usable_small_iff by blast
  qed
next
  fix L
  assume a: "(\<exists>e. L = 2 ^ e) \<and> L \<le> min 256 (length signal) \<and>
      (\<forall>e. (2::nat) ^ e \<le> min 256 (length signal) \<longrightarrow> 2 ^ e \<le> L) \<and> 16 \<le> L"
  then obtain e where e: "L = 2 ^ e" by blast
  have "highestPowerOfTwo (min 256 (length signal)) = L"
    using e a by (intro highestPowerOfTwo_unique [of L e]) simp_all
  then have L: "L = highestPowerOfTwo (min 256 (length signal))" by simp
  have big: "16 \<le> L" using a by simp
  note psd = welchPsd_nonempty [OF L big, of fs]
  have le: "L \<le> length signal" using a by simp
  have pos: "0 < L div 2" using big by simp
  have S: "{j. j * (L div 2) + L \<le> length signal} = {..<(length signal - L) div (L div 2) + 1}"
    using le pos by (rule fullSegments_eq)
  show "length (psd_f (welchPsd signal fs)) = L div 2 + 1"
    unfolding psd by simp
  show "length (psd_p (welchPsd signal fs)) = L div 2 + 1"
    unfolding psd by simp
  show "0 < fs * windowPower L"
    using assms windowPower_pos [OF big] by simp
  show "0 < card {j. j * (L div 2) + L \<le> length signal}"
    unfolding S by simp
  fix k
  assume k: "k < L div 2 + 1"
  show "psd_f (welchPsd signal fs) ! k = real k * fs / real L"
    unfolding psd using k by (simp del: upt_Suc)
  show "psd_p (welchPsd signal fs) ! k =
          (\<Sum>j \<in> {j. j * (L div 2) + L \<le> length signal}.
             (if 0 < k \<and> k < L div 2
              then 2 * segmentPower signal fs L (j * (L div 2)) k
              else segmentPower signal fs L (j * (L div 2)) k))
          / real (card {j. j * (L div 2) + L \<le> length signal})"
    unfolding psd using k
    by (simp add: sum_distrib_left [symmetric] del: upt_Suc)
qed


theorem welchPsd_bins_witness:
  "(0::real) < 4 \<and>
   welchPsd (replicate 16 0.8) 4 \<noteq> \<lparr>psd_f = [], psd_p = []\<rparr> \<and>
   length (psd_f (welchPsd (replicate 16 0.8) 4)) = 9 \<and>
   length (psd_p (welchPsd (replicate 16 0.8) 4)) = 9 \<and>
   psd_f (welchPsd (replicate 16 0.8) 4) ! 1 = 1 / 4 \<and>
   welchPsd (replicate 15 0.8) 4 = \<lparr>psd_f = [], psd_p = []\<rparr>"
proof -
  have fs: "(0::real) < 4" by simp
  note thm16 = welchPsd_bins [OF fs, of "replicate 16 0.8"]
  note thm15 = welchPsd_bins [OF fs, of "replicate 15 0.8"]
  have "\<not> (\<forall>e. (2::nat) ^ e \<le> min 256 (length (replicate 16 (0.8::real))) \<longrightarrow> (2::nat) ^ e < 16)"
    by (auto intro!: exI [of _ 4])
  then have nonempty: "welchPsd (replicate 16 0.8) 4 \<noteq> \<lparr>psd_f = [], psd_p = []\<rparr>"
    using thm16 by blast
  have hyp: "(\<exists>e. (16::nat) = 2 ^ e) \<and> 16 \<le> min 256 (length (replicate 16 (0.8::real))) \<and>
      (\<forall>e. (2::nat) ^ e \<le> min 256 (length (replicate 16 (0.8::real))) \<longrightarrow> 2 ^ e \<le> (16::nat)) \<and>
      (16::nat) \<le> 16"
    by (auto intro!: exI [of _ 4])
  have concl: "length (psd_f (welchPsd (replicate 16 0.8) 4)) = 16 div 2 + 1 \<and>
      length (psd_p (welchPsd (replicate 16 0.8) 4)) = 16 div 2 + 1 \<and>
      (\<forall>k < 16 div 2 + 1. psd_f (welchPsd (replicate 16 0.8) 4) ! k = real k * 4 / real 16)"
    using thm16 [THEN conjunct2, rule_format, OF hyp] by blast
  then have f1: "psd_f (welchPsd (replicate 16 0.8) 4) ! 1 = 1 / 4"
    by simp
  have "2 ^ e < (16::nat)" if "(2::nat) ^ e \<le> min 256 (length (replicate 15 (0.8::real)))" for e
    using that by simp
  then have empty: "welchPsd (replicate 15 0.8) 4 = \<lparr>psd_f = [], psd_p = []\<rparr>"
    using thm15 by blast
  show ?thesis
    using fs nonempty concl f1 empty by simp
qed

end
